theory Spec2Isabelle
  imports Main
begin

section \<open>Python values seen by simsig\<close>

text \<open>
  A shallow embedding of \<^verbatim>\<open>src/simsig/simsig.py\<close>. Signal numbers are Python's
  unbounded integers. The values that travel through the module (reactions, callbacks,
  dispositions reported by \<^verbatim>\<open>signal.getsignal\<close>) are one datatype; closures created
  by the module carry the identity of the function object (a number drawn from an
  allocation counter), because Python compares handlers by identity.
\<close>

type_synonym signum = int

text \<open>\<^verbatim>\<open>class SigReaction(IntEnum)\<close>: dflt = 0, ign = 1, fin = 2.\<close>

datatype sig_reaction = dflt | ign | fin

datatype error =
    ValueError string
  | TypeError string
  | OSError
  | AttributeError string
  | OverflowError
  | NotImplementedError string
  | SimSigTimeoutError
  | SystemExit int
  | UserError nat

text \<open>
  \<open>SIG_DFL\<close> and \<open>SIG_IGN\<close> are the members of \<^verbatim>\<open>signal.Handlers\<close>; \<open>PyNone\<close> is what
  \<^verbatim>\<open>signal.getsignal\<close> reports for a handler that was not installed from Python.
  \<open>UserCallable k has_name truthy\<close> is a callable supplied by the caller: object \<open>k\<close>,
  whether it has a \<^verbatim>\<open>__name__\<close> attribute (a plain function has; a
  \<^verbatim>\<open>functools.partial\<close> or an instance with \<^verbatim>\<open>__call__\<close> has not) and its truth value.
  \<open>FinHandler\<close>, \<open>ChainedHandler\<close> and \<open>TimeoutHandler\<close> are the three closures the
  module defines (\<^verbatim>\<open>handler\<close>, \<^verbatim>\<open>chained_handler\<close>, \<^verbatim>\<open>_timeout_handler\<close>) with the
  variables they capture. \<open>OtherObject\<close> is any other object: not callable, not a
  \<^verbatim>\<open>SigReaction\<close>.
\<close>

datatype pyval =
    SIG_DFL
  | SIG_IGN
  | PyNone
  | Reaction sig_reaction
  | UserCallable nat bool bool
  | FinHandler nat
  | ChainedHandler nat string pyval pyval
  | TimeoutHandler nat int
  | OtherObject nat

fun callable :: "pyval \<Rightarrow> bool" where
  "callable (UserCallable k hn t) = True"
| "callable (FinHandler i) = True"
| "callable (ChainedHandler i ord cb orig) = True"
| "callable (TimeoutHandler i secs) = True"
| "callable v = False"

text \<open>Whether \<^verbatim>\<open>v.__name__\<close> exists; reading it raises \<^verbatim>\<open>AttributeError\<close> otherwise.\<close>

fun has_name :: "pyval \<Rightarrow> bool" where
  "has_name (UserCallable k hn t) = hn"
| "has_name (FinHandler i) = True"
| "has_name (ChainedHandler i ord cb orig) = True"
| "has_name (TimeoutHandler i secs) = True"
| "has_name v = False"

text \<open>
  Truth value, as tested by \<^verbatim>\<open>if self._graceful_shutdown_callback:\<close>. The members of
  an \<^verbatim>\<open>IntEnum\<close> are integers, so the member with value 0 is false. (The test is only
  ever applied to a stored shutdown callback, which is callable.)
\<close>

fun truthy :: "pyval \<Rightarrow> bool" where
  "truthy SIG_DFL = False"
| "truthy SIG_IGN = True"
| "truthy PyNone = False"
| "truthy (Reaction r) = (r \<noteq> dflt)"
| "truthy (UserCallable k hn t) = t"
| "truthy v = True"

text \<open>What \<^verbatim>\<open>signal.signal\<close> accepts as a handler; anything else is a \<^verbatim>\<open>TypeError\<close>.\<close>

definition installable :: "pyval \<Rightarrow> bool" where
  "installable h = (callable h \<or> h = SIG_DFL \<or> h = SIG_IGN)"

section \<open>The platform and the process state\<close>

text \<open>
  The platform is the part of the \<^verbatim>\<open>signal\<close> module that is given from outside:
  \<^item> \<open>available_signals\<close>: \<^verbatim>\<open>_AVAILABLE_SIGNALS\<close>, the names and numbers found in
    \<^verbatim>\<open>signal.__dict__\<close>, in definition order (first name of a number is the canonical
    enum member, later names are aliases);
  \<^item> \<open>nsig\<close>: \<^verbatim>\<open>signal.NSIG\<close>; \<^verbatim>\<open>signal.getsignal\<close> raises outside \<open>1 \<le> n < nsig\<close>;
  \<^item> \<open>signal_rejects\<close>: whether \<^verbatim>\<open>signal.signal\<close> refuses this signal number, and with
    which of its two errors;
  \<^item> \<open>has_pthread_sigmask\<close>: \<^verbatim>\<open>hasattr(signal, "pthread_sigmask")\<close>;
  \<^item> \<open>unblockable\<close>: signals the kernel silently leaves out of the mask.
\<close>

datatype os_reject = RejectValueError | RejectOSError

record platform =
  available_signals :: "(string \<times> signum) list"
  nsig :: int
  signal_rejects :: "signum \<Rightarrow> os_reject option"
  has_pthread_sigmask :: bool
  unblockable :: "signum set"

text \<open>Every \<^verbatim>\<open>logger\<close> call of the modelled functions, with the values it formats.\<close>

datatype log_record =
    CreatingFinHandler
  | ReceivedTerminating string
  | ExecutingShutdownCallback
  | SettingHandler string
  | CouldNotSetHandler string error
  | RegisteringGraceful
  | ChainingCallback string string
  | EnteringTempHandler "string list"
  | ExitingTempHandler
  | EnteringTimeout int
  | ExitingTimeout
  | BlockingSignals "string list"
  | UnblockingSignals

text \<open>How a caller-supplied callable was called: \<^verbatim>\<open>cb()\<close> or \<^verbatim>\<open>cb(signum, frame)\<close>.\<close>

datatype call_args = NoArgs | SignalArgs signum

text \<open>
  The state is the process-wide state behind the \<^verbatim>\<open>signal\<close> module (disposition
  table, blocked set, seconds left on the alarm; 0 is no alarm), the two attributes of
  the \<^verbatim>\<open>SimSig\<close> instance (the shutdown callback and the identity of the cached
  terminate handler), the allocation counter for new function objects, and three
  histories: every \<^verbatim>\<open>signal.signal\<close> call attempted, every log record, every call of a
  caller-supplied callable.
\<close>

record state =
  handlers :: "signum \<Rightarrow> pyval"
  blocked :: "signum set"
  alarm :: nat
  graceful_shutdown_callback :: "pyval option"
  fin_handler :: "nat option"
  next_id :: nat
  installs :: "(signum \<times> pyval) list"
  logged :: "log_record list"
  invoked :: "(nat \<times> call_args) list"

definition emit :: "log_record \<Rightarrow> state \<Rightarrow> state" where
  "emit r st = st\<lparr>logged := logged st @ [r]\<rparr>"

section \<open>The Signals enum\<close>

text \<open>\<^verbatim>\<open>Signals(v).name\<close>: the first name defined with value \<open>v\<close>; \<^verbatim>\<open>ValueError\<close> if none.\<close>

definition Signals_name :: "platform \<Rightarrow> signum \<Rightarrow> error + string" where
  "Signals_name P v =
     (case find (\<lambda>(n, w). w = v) (available_signals P) of
        None \<Rightarrow> Inl (ValueError ''not a valid Signals'')
      | Some (n, w) \<Rightarrow> Inr n)"

text \<open>\<^verbatim>\<open>for s in Signals\<close>: the canonical members, aliases left out.\<close>

fun members_from :: "signum list \<Rightarrow> (string \<times> signum) list \<Rightarrow> (string \<times> signum) list" where
  "members_from seen [] = []"
| "members_from seen ((n, v) # rest) =
     (if v \<in> set seen then members_from seen rest
      else (n, v) # members_from (v # seen) rest)"

definition Signals_members :: "platform \<Rightarrow> (string \<times> signum) list" where
  "Signals_members P = members_from [] (available_signals P)"

text \<open>
  \<^verbatim>\<open>self._terminating_by_default\<close>, built in \<^verbatim>\<open>__init__\<close>. It is a Python set; the
  model lists it in the enum's order.
\<close>

definition terminating_names :: "string list" where
  "terminating_names =
     [''SIGHUP'', ''SIGINT'', ''SIGQUIT'', ''SIGILL'', ''SIGABRT'', ''SIGFPE'', ''SIGSEGV'',
      ''SIGPIPE'', ''SIGALRM'', ''SIGTERM'', ''SIGXCPU'', ''SIGXFSZ'', ''SIGVTALRM'',
      ''SIGPROF'', ''SIGUSR1'', ''SIGUSR2'']"

definition terminating_by_default :: "platform \<Rightarrow> (string \<times> signum) list" where
  "terminating_by_default P =
     filter (\<lambda>(n, v). n \<in> set terminating_names) (Signals_members P)"

section \<open>Signal designators and \<^verbatim>\<open>_normalize_signals\<close>\<close>

text \<open>
  A designator is a plain integer, a member of the \<^verbatim>\<open>Signals\<close> enum (its name and
  value) or a string. \<^verbatim>\<open>int(s)\<close> on a string parses a decimal literal: surrounding
  whitespace, an optional sign, digits with single underscores between them. The
  whitespace skipped is tab, line feed, vertical tab, form feed, carriage return and
  space, and of the characters beyond ASCII (which are turned into a space first) the
  next-line and no-break-space characters; the separators 28 to 31 are not skipped.
\<close>

datatype designator = DInt int | DMember string signum | DStr string

datatype sigarg = Single designator | Many "designator list"

definition is_space :: "char \<Rightarrow> bool" where
  "is_space c = ((of_char c :: nat) \<in> {9, 10, 11, 12, 13, 32, 133, 160})"

definition digit_val :: "char \<Rightarrow> nat option" where
  "digit_val c = (let n = (of_char c :: nat) in if 48 \<le> n \<and> n \<le> 57 then Some (n - 48) else None)"

fun py_digits :: "nat \<Rightarrow> string \<Rightarrow> nat option" where
  "py_digits acc [] = Some acc"
| "py_digits acc [c] =
     (case digit_val c of None \<Rightarrow> None | Some v \<Rightarrow> Some (acc * 10 + v))"
| "py_digits acc (c # d # ds) =
     (if c = CHR ''_'' then
        (case digit_val d of None \<Rightarrow> None | Some v \<Rightarrow> py_digits (acc * 10 + v) ds)
      else (case digit_val c of None \<Rightarrow> None | Some v \<Rightarrow> py_digits (acc * 10 + v) (d # ds)))"

definition py_unsigned :: "string \<Rightarrow> nat option" where
  "py_unsigned s =
     (case s of [] \<Rightarrow> None
      | c # cs \<Rightarrow> (case digit_val c of None \<Rightarrow> None | Some v \<Rightarrow> py_digits v cs))"

definition strip :: "string \<Rightarrow> string" where
  "strip s = rev (dropWhile is_space (rev (dropWhile is_space s)))"

definition py_int_of_string :: "string \<Rightarrow> error + int" where
  "py_int_of_string s =
     (let t = strip s;
          r = (case t of [] \<Rightarrow> None
               | c # cs \<Rightarrow>
                   if c = CHR ''-'' then map_option (\<lambda>n. - int n) (py_unsigned cs)
                   else if c = CHR ''+'' then map_option int (py_unsigned cs)
                   else map_option int (py_unsigned t))
      in case r of None \<Rightarrow> Inl (ValueError ''invalid literal for int() with base 10'')
         | Some i \<Rightarrow> Inr i)"

fun py_int :: "designator \<Rightarrow> error + int" where
  "py_int (DInt i) = Inr i"
| "py_int (DMember n v) = Inr v"
| "py_int (DStr s) = py_int_of_string s"

text \<open>\<^verbatim>\<open>[int(s) for s in signals]\<close>: the first failing element raises.\<close>

fun int_each :: "designator list \<Rightarrow> error + int list" where
  "int_each [] = Inr []"
| "int_each (d # ds) =
     (case py_int d of Inl e \<Rightarrow> Inl e
      | Inr i \<Rightarrow> (case int_each ds of Inl e \<Rightarrow> Inl e | Inr is \<Rightarrow> Inr (i # is)))"

fun normalize_signals :: "sigarg \<Rightarrow> error + int list" where
  "normalize_signals (Single d) = (case py_int d of Inl e \<Rightarrow> Inl e | Inr i \<Rightarrow> Inr [i])"
| "normalize_signals (Many ds) = int_each ds"

text \<open>\<^verbatim>\<open>Signals(sig)\<close> applied to the designator itself: a string is never a member.\<close>

fun Signals_of :: "platform \<Rightarrow> designator \<Rightarrow> error + string" where
  "Signals_of P (DInt i) = Signals_name P i"
| "Signals_of P (DMember n v) = Signals_name P v"
| "Signals_of P (DStr s) = Inl (ValueError ''not a valid Signals'')"

text \<open>\<^verbatim>\<open>has_sig\<close>: a string is looked up among the names, an integer among the values.\<close>

fun has_sig :: "platform \<Rightarrow> designator \<Rightarrow> bool" where
  "has_sig P (DStr s) = (s \<in> fst ` set (available_signals P))"
| "has_sig P (DInt i) = (i \<in> snd ` set (available_signals P))"
| "has_sig P (DMember n v) = (v \<in> snd ` set (available_signals P))"

section \<open>The primitives of the \<^verbatim>\<open>signal\<close> module\<close>

definition reject_error :: "os_reject \<Rightarrow> error" where
  "reject_error r = (case r of RejectValueError \<Rightarrow> ValueError ''signal rejected''
                     | RejectOSError \<Rightarrow> OSError)"

text \<open>
  \<^verbatim>\<open>signal.signal(sig, h)\<close>: the attempt is recorded; the number is checked first
  (\<^verbatim>\<open>ValueError\<close>), then the handler (\<^verbatim>\<open>TypeError\<close>), then the kernel is asked
  (\<^verbatim>\<open>OSError\<close>); only then does the disposition change.
\<close>

definition os_signal :: "platform \<Rightarrow> signum \<Rightarrow> pyval \<Rightarrow> state \<Rightarrow> error option \<times> state" where
  "os_signal P sig h st =
     (let st1 = st\<lparr>installs := installs st @ [(sig, h)]\<rparr> in
      if signal_rejects P sig = Some RejectValueError
        then (Some (reject_error RejectValueError), st1)
      else if \<not> installable h
        then (Some (TypeError ''signal handler must be SIG_IGN, SIG_DFL or a callable''), st1)
      else if signal_rejects P sig = Some RejectOSError
        then (Some (reject_error RejectOSError), st1)
      else (None, st1\<lparr>handlers := (handlers st1)(sig := h)\<rparr>))"

text \<open>
  \<^verbatim>\<open>get_signal_setting\<close>: \<^verbatim>\<open>signal.getsignal(int(sig))\<close>. A number in range is
  answered from the table. A number that a C \<^verbatim>\<open>int\<close> cannot hold fails in the
  conversion of the argument (\<^verbatim>\<open>OverflowError\<close>); any other number out of range is a
  \<^verbatim>\<open>ValueError\<close>. (\<open>nsig\<close> is itself a C \<^verbatim>\<open>int\<close>, so a number in range is one a C
  \<^verbatim>\<open>int\<close> holds.)
\<close>

definition get_signal_setting :: "platform \<Rightarrow> designator \<Rightarrow> state \<Rightarrow> error + pyval" where
  "get_signal_setting P sig st =
     (case py_int sig of Inl e \<Rightarrow> Inl e
      | Inr n \<Rightarrow> if 1 \<le> n \<and> n < nsig P then Inr (handlers st n)
                 else if n < - (2 ^ 31) \<or> 2 ^ 31 \<le> n then Inl OverflowError
                 else Inl (ValueError ''signal number out of range''))"

text \<open>\<^verbatim>\<open>signal.pthread_sigmask(SIG_BLOCK, l)\<close> and \<^verbatim>\<open>(SIG_UNBLOCK, l)\<close>.\<close>

definition sigmask_block :: "platform \<Rightarrow> signum list \<Rightarrow> state \<Rightarrow> state" where
  "sigmask_block P l st = st\<lparr>blocked := blocked st \<union> (set l - unblockable P)\<rparr>"

definition sigmask_unblock :: "signum list \<Rightarrow> state \<Rightarrow> state" where
  "sigmask_unblock l st = st\<lparr>blocked := blocked st - set l\<rparr>"

text \<open>
  \<^verbatim>\<open>signal.alarm(seconds)\<close>: the argument is converted to a C \<^verbatim>\<open>int\<close>
  (\<^verbatim>\<open>OverflowError\<close> outside its range) and handed to \<^verbatim>\<open>alarm(unsigned)\<close>; 0 cancels.
\<close>

definition os_alarm :: "int \<Rightarrow> state \<Rightarrow> error option \<times> state" where
  "os_alarm seconds st =
     (if seconds < - (2 ^ 31) \<or> 2 ^ 31 \<le> seconds then (Some OverflowError, st)
      else (None, st\<lparr>alarm := nat (seconds mod 2 ^ 32)\<rparr>))"

section \<open>Installing handlers\<close>

text \<open>
  \<^verbatim>\<open>_create_fin_handler\<close>: the closure is created when the cache is empty. The
  attribute \<^verbatim>\<open>_fin_handler\<close> only ever holds that closure, so the state keeps the
  identity of the cached function object.
\<close>

definition create_fin_handler :: "state \<Rightarrow> pyval \<times> state" where
  "create_fin_handler st =
     (case fin_handler st of
        None \<Rightarrow>
          (let st1 = (emit CreatingFinHandler st)\<lparr>next_id := next_id st + 1\<rparr>
           in (FinHandler (next_id st), st1\<lparr>fin_handler := Some (next_id st)\<rparr>))
      | Some i \<Rightarrow> (FinHandler i, st))"

text \<open>Which errors the \<^verbatim>\<open>except (ValueError, OSError)\<close> clauses catch.\<close>

fun caught :: "error \<Rightarrow> bool" where
  "caught (ValueError m) = True"
| "caught OSError = True"
| "caught e = False"

text \<open>The loop of \<^verbatim>\<open>set_handler\<close> over the normalized list.\<close>

fun set_loop :: "platform \<Rightarrow> signum list \<Rightarrow> pyval \<Rightarrow> state \<Rightarrow> error option \<times> state" where
  "set_loop P [] h st = (None, st)"
| "set_loop P (sig # rest) h st =
     (case Signals_name P sig of
        Inl e \<Rightarrow> (Some e, st)
      | Inr sig_name \<Rightarrow>
          (case os_signal P sig h (emit (SettingHandler sig_name) st) of
             (None, st1) \<Rightarrow> set_loop P rest h st1
           | (Some e, st1) \<Rightarrow>
               if caught e then set_loop P rest h (emit (CouldNotSetHandler sig_name e) st1)
               else (Some e, st1)))"

text \<open>
  Lines 107-117 of \<^verbatim>\<open>set_handler\<close>: the handler to install. The dictionary
  \<^verbatim>\<open>reaction_map\<close> is built whenever the reaction is a \<^verbatim>\<open>SigReaction\<close>, and building
  it calls \<^verbatim>\<open>_create_fin_handler\<close>.
\<close>

definition resolve_reaction :: "pyval \<Rightarrow> state \<Rightarrow> (error + pyval) \<times> state" where
  "resolve_reaction reaction st =
     (case reaction of
        Reaction r \<Rightarrow>
          (let (fh, st1) = create_fin_handler st
           in (Inr (case r of dflt \<Rightarrow> SIG_DFL | ign \<Rightarrow> SIG_IGN | fin \<Rightarrow> fh), st1))
      | _ \<Rightarrow>
          if callable reaction then (Inr reaction, st)
          else (Inl (TypeError ''handler must be a SigReaction enum or a callable.''), st))"

text \<open>\<^verbatim>\<open>set_handler\<close>.\<close>

definition set_handler :: "platform \<Rightarrow> sigarg \<Rightarrow> pyval \<Rightarrow> state \<Rightarrow> error option \<times> state" where
  "set_handler P signals reaction st =
     (case normalize_signals signals of
        Inl e \<Rightarrow> (Some e, st)
      | Inr signal_list \<Rightarrow>
          (case resolve_reaction reaction st of
             (Inl e, st1) \<Rightarrow> (Some e, st1)
           | (Inr handler_to_set, st1) \<Rightarrow> set_loop P signal_list handler_to_set st1))"

text \<open>\<^verbatim>\<open>graceful_shutdown\<close>.\<close>

definition graceful_shutdown :: "platform \<Rightarrow> pyval \<Rightarrow> state \<Rightarrow> error option \<times> state" where
  "graceful_shutdown P callback st =
     (if \<not> callable callback
        then (Some (TypeError ''Provided callback must be a callable function.''), st)
      else if \<not> has_name callback then (Some (AttributeError ''__name__''), st)
      else
        (let st1 = (emit RegisteringGraceful st)\<lparr>graceful_shutdown_callback := Some callback\<rparr>;
             signals_to_set = filter (\<lambda>(n, v). n \<noteq> ''SIGKILL'') (terminating_by_default P)
         in set_handler P (Many (map (\<lambda>(n, v). DMember n v) signals_to_set)) (Reaction fin) st1))"

text \<open>
  \<^verbatim>\<open>chain_handler\<close>. The closure \<^verbatim>\<open>chained_handler\<close> captures \<^verbatim>\<open>order\<close>,
  \<^verbatim>\<open>callback\<close> and \<^verbatim>\<open>original_handler\<close>.
\<close>

definition chain_handler ::
  "platform \<Rightarrow> designator \<Rightarrow> pyval \<Rightarrow> string \<Rightarrow> state \<Rightarrow> error option \<times> state" where
  "chain_handler P sig callback ord st =
     (if ord \<notin> set [''before'', ''after'']
        then (Some (ValueError ''Order must be before or after.''), st)
      else
        (case get_signal_setting P sig st of
           Inl e \<Rightarrow> (Some e, st)
         | Inr original_handler \<Rightarrow>
             (case Signals_of P sig of
                Inl e \<Rightarrow> (Some e, st)
              | Inr sig_name \<Rightarrow>
                  if \<not> has_name callback then (Some (AttributeError ''__name__''), st)
                  else
                    (let st1 = (emit (ChainingCallback sig_name ord) st)
                                 \<lparr>next_id := next_id st + 1\<rparr>;
                         chained_handler =
                           ChainedHandler (next_id st) ord callback original_handler
                     in set_handler P (Single sig) chained_handler st1))))"

section \<open>Running handlers\<close>

text \<open>
  What a caller-supplied callable does when called is outside the module: a behaviour
  tells, for each such object and each way of calling it, whether the call returns
  (\<open>None\<close>) or raises. The call itself is recorded in \<open>invoked\<close>.
\<close>

type_synonym behaviour = "nat \<Rightarrow> call_args \<Rightarrow> error option"

text \<open>
  \<^verbatim>\<open>cb()\<close>, as in \<^verbatim>\<open>self._graceful_shutdown_callback()\<close>. The module's own closures
  take two positional arguments, so calling them with none is a \<^verbatim>\<open>TypeError\<close>.
\<close>

fun call0 :: "behaviour \<Rightarrow> pyval \<Rightarrow> state \<Rightarrow> error option \<times> state" where
  "call0 beh (UserCallable k hn t) st = (beh k NoArgs, st\<lparr>invoked := invoked st @ [(k, NoArgs)]\<rparr>)"
| "call0 beh (FinHandler i) st = (Some (TypeError ''missing 2 required positional arguments''), st)"
| "call0 beh (ChainedHandler i ord cb orig) st =
     (Some (TypeError ''missing 2 required positional arguments''), st)"
| "call0 beh (TimeoutHandler i secs) st =
     (Some (TypeError ''missing 2 required positional arguments''), st)"
| "call0 beh v st = (Some (TypeError ''object is not callable''), st)"

text \<open>
  \<^verbatim>\<open>h(signum, frame)\<close>: the bodies of \<^verbatim>\<open>handler\<close> (lines 85-93), \<^verbatim>\<open>chained_handler\<close>
  (lines 157-165) and \<^verbatim>\<open>_timeout_handler\<close> (lines 237-240). \<^verbatim>\<open>sys.exit(n)\<close> raises
  \<^verbatim>\<open>SystemExit(n)\<close>.
\<close>

fun call2 :: "platform \<Rightarrow> behaviour \<Rightarrow> pyval \<Rightarrow> signum \<Rightarrow> state \<Rightarrow> error option \<times> state" where
  "call2 P beh (UserCallable k hn t) signum st =
     (beh k (SignalArgs signum), st\<lparr>invoked := invoked st @ [(k, SignalArgs signum)]\<rparr>)"
| "call2 P beh (FinHandler i) signum st =
     (case Signals_name P signum of
        Inl e \<Rightarrow> (Some e, st)
      | Inr sig_name \<Rightarrow>
          (let st1 = emit (ReceivedTerminating sig_name) st in
           case graceful_shutdown_callback st1 of
             None \<Rightarrow> (Some (SystemExit (128 + signum)), st1)
           | Some cb \<Rightarrow>
               if truthy cb then
                 (case call0 beh cb (emit ExecutingShutdownCallback st1) of
                    (Some e, st2) \<Rightarrow> (Some e, st2)
                  | (None, st2) \<Rightarrow> (Some (SystemExit (128 + signum)), st2))
               else (Some (SystemExit (128 + signum)), st1)))"
| "call2 P beh (ChainedHandler i ord callback original_handler) signum st =
     (if ord = ''before'' then
        (case call2 P beh callback signum st of
           (Some e, st1) \<Rightarrow> (Some e, st1)
         | (None, st1) \<Rightarrow>
             if callable original_handler then call2 P beh original_handler signum st1
             else (None, st1))
      else
        (case (if callable original_handler then call2 P beh original_handler signum st
               else (None, st)) of
           (Some e, st1) \<Rightarrow> (Some e, st1)
         | (None, st1) \<Rightarrow> call2 P beh callback signum st1))"
| "call2 P beh (TimeoutHandler i secs) signum st = (Some SimSigTimeoutError, st)"
| "call2 P beh v signum st = (Some (TypeError ''object is not callable''), st)"

text \<open>The calls of caller-supplied callables that running \<open>h\<close> adds to the history.\<close>

definition new_calls ::
  "platform \<Rightarrow> behaviour \<Rightarrow> pyval \<Rightarrow> signum \<Rightarrow> state \<Rightarrow> (nat \<times> call_args) list" where
  "new_calls P beh h signum st =
     drop (length (invoked st)) (invoked (snd (call2 P beh h signum st)))"

section \<open>Scopes\<close>

text \<open>
  A \<^verbatim>\<open>@contextmanager\<close> generator runs up to its \<^verbatim>\<open>yield\<close> when the \<^verbatim>\<open>with\<close>
  statement is entered and from the \<^verbatim>\<open>yield\<close> on when the protected block is left,
  normally or by an exception. Each scope is therefore an entry part, an exit part (the
  \<^verbatim>\<open>finally\<close> clause) and their composition around a protected block; the block is
  any function from the state to an outcome and a state. An exception raised by the
  \<^verbatim>\<open>finally\<close> clause replaces the one that was propagating.
\<close>

type_synonym block = "state \<Rightarrow> error option \<times> state"

subsection \<open>\<^verbatim>\<open>temp_handler\<close>\<close>

text \<open>
  \<^verbatim>\<open>{sig: self.get_signal_setting(sig) for sig in signal_list}\<close>: a dictionary, so every
  signal is a key once, at the place of its first occurrence.
\<close>

fun snapshot :: "platform \<Rightarrow> signum list \<Rightarrow> state \<Rightarrow> error + (signum \<times> pyval) list" where
  "snapshot P [] st = Inr []"
| "snapshot P (sig # rest) st =
     (case get_signal_setting P (DInt sig) st of
        Inl e \<Rightarrow> Inl e
      | Inr h \<Rightarrow>
          (case snapshot P rest st of
             Inl e \<Rightarrow> Inl e
           | Inr d \<Rightarrow> Inr ((sig, h) # filter (\<lambda>(k, v). k \<noteq> sig) d)))"

text \<open>\<^verbatim>\<open>[Signals(s).name for s in signal_list]\<close>, formatted into the debug messages.\<close>

fun names_each :: "platform \<Rightarrow> signum list \<Rightarrow> error + string list" where
  "names_each P [] = Inr []"
| "names_each P (s # rest) =
     (case Signals_name P s of
        Inl e \<Rightarrow> Inl e
      | Inr n \<Rightarrow> (case names_each P rest of Inl e \<Rightarrow> Inl e | Inr ns \<Rightarrow> Inr (n # ns)))"

text \<open>The loop of the \<^verbatim>\<open>finally\<close> clause (lines 222-227).\<close>

fun restore_loop :: "platform \<Rightarrow> (signum \<times> pyval) list \<Rightarrow> state \<Rightarrow> error option \<times> state" where
  "restore_loop P [] st = (None, st)"
| "restore_loop P ((sig, handler) # rest) st =
     (if handler \<noteq> PyNone then
        (case os_signal P sig handler st of
           (None, st1) \<Rightarrow> restore_loop P rest st1
         | (Some e, st1) \<Rightarrow> if caught e then restore_loop P rest st1 else (Some e, st1))
      else restore_loop P rest st)"

definition temp_handler_exit ::
  "platform \<Rightarrow> (signum \<times> pyval) list \<Rightarrow> state \<Rightarrow> error option \<times> state" where
  "temp_handler_exit P original_handlers st =
     restore_loop P original_handlers (emit ExitingTempHandler st)"

definition temp_handler_enter ::
  "platform \<Rightarrow> sigarg \<Rightarrow> pyval \<Rightarrow> state \<Rightarrow> (error + (signum \<times> pyval) list) \<times> state" where
  "temp_handler_enter P signals reaction st =
     (case normalize_signals signals of
        Inl e \<Rightarrow> (Inl e, st)
      | Inr signal_list \<Rightarrow>
          (case snapshot P signal_list st of
             Inl e \<Rightarrow> (Inl e, st)
           | Inr original_handlers \<Rightarrow>
               (case names_each P signal_list of
                  Inl e \<Rightarrow> (Inl e, st)
                | Inr names \<Rightarrow>
                    (case set_handler P (Many (map DInt signal_list)) reaction
                            (emit (EnteringTempHandler names) st) of
                       (None, st1) \<Rightarrow> (Inr original_handlers, st1)
                     | (Some e, st1) \<Rightarrow>
                         (case temp_handler_exit P original_handlers st1 of
                            (None, st2) \<Rightarrow> (Inl e, st2)
                          | (Some e', st2) \<Rightarrow> (Inl e', st2))))))"

definition temp_handler ::
  "platform \<Rightarrow> sigarg \<Rightarrow> pyval \<Rightarrow> block \<Rightarrow> state \<Rightarrow> error option \<times> state" where
  "temp_handler P signals reaction body st =
     (case temp_handler_enter P signals reaction st of
        (Inl e, st1) \<Rightarrow> (Some e, st1)
      | (Inr original_handlers, st1) \<Rightarrow>
          (case body st1 of
             (r, st2) \<Rightarrow>
               (case temp_handler_exit P original_handlers st2 of
                  (None, st3) \<Rightarrow> (r, st3)
                | (Some e, st3) \<Rightarrow> (Some e, st3))))"

subsection \<open>\<^verbatim>\<open>block_signals\<close>\<close>

definition block_signals_exit :: "signum list \<Rightarrow> state \<Rightarrow> state" where
  "block_signals_exit signal_list st = sigmask_unblock signal_list (emit UnblockingSignals st)"

definition block_signals_enter ::
  "platform \<Rightarrow> sigarg \<Rightarrow> state \<Rightarrow> (error + signum list) \<times> state" where
  "block_signals_enter P signals st =
     (if \<not> has_pthread_sigmask P
        then (Inl (NotImplementedError ''Signal masking (pthread_sigmask) is not supported on this OS.''), st)
      else
        (case normalize_signals signals of
           Inl e \<Rightarrow> (Inl e, st)
         | Inr signal_list \<Rightarrow>
             (case names_each P signal_list of
                Inl e \<Rightarrow> (Inl e, st)
              | Inr names \<Rightarrow>
                  (Inr signal_list, sigmask_block P signal_list (emit (BlockingSignals names) st)))))"

definition block_signals :: "platform \<Rightarrow> sigarg \<Rightarrow> block \<Rightarrow> state \<Rightarrow> error option \<times> state" where
  "block_signals P signals body st =
     (case block_signals_enter P signals st of
        (Inl e, st1) \<Rightarrow> (Some e, st1)
      | (Inr signal_list, st1) \<Rightarrow>
          (case body st1 of (r, st2) \<Rightarrow> (r, block_signals_exit signal_list st2)))"

subsection \<open>\<^verbatim>\<open>with_timeout\<close>\<close>

text \<open>
  The protected block of a timeout is described by the whole seconds it needs and by how
  it ends when left alone. While it runs, the countdown armed by \<^verbatim>\<open>signal.alarm\<close> goes
  on: if the countdown is armed, ends strictly before the block does, and the alarm
  signal is not blocked, the signal is delivered inside the block, the installed
  disposition is called, and what it raises leaves the block (a block that catches the
  exception itself is not described). Otherwise the block ends as it says and the
  countdown has gone down by its duration.
\<close>

record timed_block =
  duration :: nat
  raises :: "error option"

definition run_timed ::
  "platform \<Rightarrow> behaviour \<Rightarrow> signum \<Rightarrow> timed_block \<Rightarrow> state \<Rightarrow> error option \<times> state" where
  "run_timed P beh alrm blk st =
     (if 0 < alarm st \<and> alarm st < duration blk \<and> alrm \<notin> blocked st
        then call2 P beh (handlers st alrm) alrm (st\<lparr>alarm := 0\<rparr>)
      else (raises blk, st\<lparr>alarm := alarm st - duration blk\<rparr>))"

text \<open>The \<^verbatim>\<open>finally\<close> clause (lines 250-252).\<close>

definition with_timeout_exit ::
  "platform \<Rightarrow> signum \<Rightarrow> pyval \<Rightarrow> state \<Rightarrow> error option \<times> state" where
  "with_timeout_exit P alrm original_handler st =
     (case os_alarm 0 st of
        (Some e, st1) \<Rightarrow> (Some e, st1)
      | (None, st1) \<Rightarrow>
          (case os_signal P alrm original_handler st1 of
             (Some e, st2) \<Rightarrow> (Some e, st2)
           | (None, st2) \<Rightarrow> (None, emit ExitingTimeout st2)))"

definition with_timeout_enter ::
  "platform \<Rightarrow> int \<Rightarrow> state \<Rightarrow> (error + signum \<times> pyval) \<times> state" where
  "with_timeout_enter P seconds st =
     (case map_of (available_signals P) ''SIGALRM'' of
        None \<Rightarrow> (Inl (NotImplementedError ''Timeout via SIGALRM is not supported on this OS.''), st)
      | Some alrm \<Rightarrow>
          (let timeout_handler = TimeoutHandler (next_id st) seconds;
               st1 = (emit (EnteringTimeout seconds) st)\<lparr>next_id := next_id st + 1\<rparr>
           in case get_signal_setting P (DMember ''SIGALRM'' alrm) st1 of
                Inl e \<Rightarrow> (Inl e, st1)
              | Inr original_handler \<Rightarrow>
                  (case os_signal P alrm timeout_handler st1 of
                     (Some e, st2) \<Rightarrow> (Inl e, st2)
                   | (None, st2) \<Rightarrow>
                       (case os_alarm seconds st2 of
                          (Some e, st3) \<Rightarrow> (Inl e, st3)
                        | (None, st3) \<Rightarrow> (Inr (alrm, original_handler), st3)))))"

definition with_timeout ::
  "platform \<Rightarrow> behaviour \<Rightarrow> int \<Rightarrow> timed_block \<Rightarrow> state \<Rightarrow> error option \<times> state" where
  "with_timeout P beh seconds blk st =
     (case with_timeout_enter P seconds st of
        (Inl e, st1) \<Rightarrow> (Some e, st1)
      | (Inr (alrm, original_handler), st1) \<Rightarrow>
          (case run_timed P beh alrm blk st1 of
             (r, st2) \<Rightarrow>
               (case with_timeout_exit P alrm original_handler st2 of
                  (None, st3) \<Rightarrow> (r, st3)
                | (Some e, st3) \<Rightarrow> (Some e, st3))))"

section \<open>An example platform\<close>

text \<open>
  Linux on x86-64 under CPython 3.11, used where a concrete platform is needed: the
  signal table in the order of \<^verbatim>\<open>signal.__dict__\<close>, \<^verbatim>\<open>SIGKILL\<close> and \<^verbatim>\<open>SIGSTOP\<close>
  refused by the kernel. In that order SIGIOT comes before SIGABRT and SIGCLD before
  SIGCHLD, so the enum built on line 20 names the numbers 6 and 17 SIGIOT and SIGCLD and
  has SIGABRT and SIGCHLD as aliases.
\<close>

definition linux_signals :: "(string \<times> signum) list" where
  "linux_signals =
     [(''SIGHUP'', 1), (''SIGINT'', 2), (''SIGQUIT'', 3), (''SIGILL'', 4), (''SIGTRAP'', 5),
      (''SIGIOT'', 6), (''SIGABRT'', 6), (''SIGFPE'', 8), (''SIGKILL'', 9), (''SIGBUS'', 7),
      (''SIGSEGV'', 11), (''SIGSYS'', 31), (''SIGPIPE'', 13), (''SIGALRM'', 14),
      (''SIGTERM'', 15), (''SIGUSR1'', 10), (''SIGUSR2'', 12), (''SIGCLD'', 17),
      (''SIGCHLD'', 17), (''SIGPWR'', 30), (''SIGIO'', 29), (''SIGURG'', 23),
      (''SIGWINCH'', 28), (''SIGPOLL'', 29), (''SIGSTOP'', 19), (''SIGTSTP'', 20),
      (''SIGCONT'', 18), (''SIGTTIN'', 21), (''SIGTTOU'', 22), (''SIGVTALRM'', 26),
      (''SIGPROF'', 27), (''SIGXCPU'', 24), (''SIGXFSZ'', 25), (''SIGRTMIN'', 34),
      (''SIGRTMAX'', 64), (''SIGSTKFLT'', 16)]"

definition linux :: platform where
  "linux =
     \<lparr>available_signals = linux_signals,
      nsig = 65,
      signal_rejects = (\<lambda>n. if n = 9 \<or> n = 19 then Some RejectOSError else None),
      has_pthread_sigmask = True,
      unblockable = {9, 19}\<rparr>"

text \<open>A process with every disposition at the default and a new \<^verbatim>\<open>SimSig\<close> instance.\<close>

definition fresh :: state where
  "fresh =
     \<lparr>handlers = (\<lambda>n. SIG_DFL), blocked = {}, alarm = 0,
      graceful_shutdown_callback = None, fin_handler = None, next_id = 0,
      installs = [], logged = [], invoked = []\<rparr>"

text \<open>A behaviour under which every caller-supplied callable returns.\<close>

definition all_return :: behaviour where
  "all_return k a = None"

section \<open>Histories of calls on one instance\<close>

text \<open>
  A caller's program, as far as the cached terminate handler is concerned: a sequence of
  calls of \<^verbatim>\<open>set_handler\<close>, \<^verbatim>\<open>graceful_shutdown\<close> and \<^verbatim>\<open>chain_handler\<close> on one
  instance, each run to its end whether it returns or raises. \<open>fin_creations\<close> counts
  how often line 83 was reached, that is, how often the closure was created.
\<close>

datatype api_call =
    SetHandler sigarg pyval
  | GracefulShutdown pyval
  | ChainHandler designator pyval string

fun run_call :: "platform \<Rightarrow> api_call \<Rightarrow> state \<Rightarrow> state" where
  "run_call P (SetHandler signals reaction) st = snd (set_handler P signals reaction st)"
| "run_call P (GracefulShutdown callback) st = snd (graceful_shutdown P callback st)"
| "run_call P (ChainHandler sig callback ord) st = snd (chain_handler P sig callback ord st)"

fun run_calls :: "platform \<Rightarrow> api_call list \<Rightarrow> state \<Rightarrow> state" where
  "run_calls P [] st = st"
| "run_calls P (c # cs) st = run_calls P cs (run_call P c st)"

definition fin_creations :: "state \<Rightarrow> nat" where
  "fin_creations st = count_list (logged st) CreatingFinHandler"

definition fin_inv :: "state \<Rightarrow> bool" where
  "fin_inv st = (fin_creations st = (if fin_handler st = None then 0 else 1))"

text \<open>A protected block that does nothing.\<close>

definition skip :: block where
  "skip st = (None, st)"

text \<open>
  Two example states: a process in which a caller's function is installed for signal 2,
  and the same after one \<^verbatim>\<open>chain_handler\<close> call with order "before".
\<close>

definition example_sigint :: state where
  "example_sigint = fresh\<lparr>handlers := (handlers fresh)(2 := UserCallable 0 True True)\<rparr>"

definition example_chained :: state where
  "example_chained =
     snd (chain_handler linux (DInt 2) (UserCallable 1 True True) ''before'' example_sigint)"

text \<open>
  The state inside an outer \<^verbatim>\<open>block_signals([SIGINT, SIGTERM])\<close> scope, before an inner
  scope is entered.
\<close>

definition example_outer :: state where
  "example_outer = snd (block_signals_enter linux (Many [DInt 2, DInt 15]) fresh)"

text \<open>
  A protected block that raises, and a process in which the handler of signal 2 was not
  installed from Python (\<^verbatim>\<open>signal.getsignal\<close> reports \<^verbatim>\<open>None\<close>).
\<close>

definition failing :: block where
  "failing st = (Some (UserError 1), st)"

definition example_foreign :: state where
  "example_foreign = fresh\<lparr>handlers := (handlers fresh)(2 := PyNone)\<rparr>"

text \<open>The state inside a \<^verbatim>\<open>block_signals(SIGALRM)\<close> scope.\<close>

definition example_alarm_blocked :: state where
  "example_alarm_blocked = snd (block_signals_enter linux (Single (DInt 14)) fresh)"

section \<open>Facts about the primitives and the installation loop\<close>

lemma Signals_name_known:
  "has_sig P (DInt s) \<Longrightarrow> \<exists>n. Signals_name P s = Inr n"
  unfolding Signals_name_def
  by (cases "find (\<lambda>(n, w). w = s) (available_signals P)")
     (auto simp: find_None_iff split: prod.splits)

lemma Signals_name_unknown:
  "\<not> has_sig P (DInt s) \<Longrightarrow> Signals_name P s = Inl (ValueError ''not a valid Signals'')"
proof -
  assume "\<not> has_sig P (DInt s)"
  then have "find (\<lambda>(n, w). w = s) (available_signals P) = None"
    by (force simp: find_None_iff)
  then show ?thesis by (simp add: Signals_name_def)
qed

lemma os_signal_cases:
  assumes "installable h"
  shows "(signal_rejects P sig = None \<and>
          os_signal P sig h st =
            (None, st\<lparr>installs := installs st @ [(sig, h)], handlers := (handlers st)(sig := h)\<rparr>))
       \<or> (\<exists>r. signal_rejects P sig = Some r \<and>
          os_signal P sig h st = (Some (reject_error r), st\<lparr>installs := installs st @ [(sig, h)]\<rparr>))"
  using assms
  by (cases "signal_rejects P sig") (auto simp: os_signal_def Let_def intro: os_reject.exhaust)

lemma caught_reject [simp]: "caught (reject_error r)"
  by (cases r) (simp_all add: reject_error_def)

lemma set_loop_known:
  assumes "installable h" and "\<forall>s\<in>set sigs. has_sig P (DInt s)"
  shows "\<exists>st'. set_loop P sigs h st = (None, st')
       \<and> handlers st' = (\<lambda>s. if s \<in> set sigs \<and> signal_rejects P s = None then h else handlers st s)
       \<and> installs st' = installs st @ map (\<lambda>s. (s, h)) sigs
       \<and> set (logged st) \<subseteq> set (logged st')
       \<and> (\<forall>s\<in>set sigs. \<forall>r n. signal_rejects P s = Some r \<longrightarrow> Signals_name P s = Inr n
             \<longrightarrow> CouldNotSetHandler n (reject_error r) \<in> set (logged st'))
       \<and> blocked st' = blocked st \<and> alarm st' = alarm st
       \<and> graceful_shutdown_callback st' = graceful_shutdown_callback st
       \<and> fin_handler st' = fin_handler st \<and> next_id st' = next_id st
       \<and> invoked st' = invoked st"
  using assms(2)
proof (induction sigs arbitrary: st)
  case Nil
  then show ?case by simp
next
  case (Cons sig rest)
  from Cons.prems obtain n where n: "Signals_name P sig = Inr n"
    using Signals_name_known by force
  let ?s0 = "emit (SettingHandler n) st"
  from os_signal_cases [OF assms(1), of P sig ?s0]
  show ?case
  proof
    assume a: "signal_rejects P sig = None \<and> os_signal P sig h ?s0 =
            (None, ?s0\<lparr>installs := installs ?s0 @ [(sig, h)], handlers := (handlers ?s0)(sig := h)\<rparr>)"
    let ?s1 = "?s0\<lparr>installs := installs ?s0 @ [(sig, h)], handlers := (handlers ?s0)(sig := h)\<rparr>"
    from Cons.IH [of ?s1] Cons.prems obtain st' where
      st': "set_loop P rest h ?s1 = (None, st')"
        "handlers st' = (\<lambda>s. if s \<in> set rest \<and> signal_rejects P s = None then h else handlers ?s1 s)"
        "installs st' = installs ?s1 @ map (\<lambda>s. (s, h)) rest"
        "set (logged ?s1) \<subseteq> set (logged st')"
        "\<forall>s\<in>set rest. \<forall>r n. signal_rejects P s = Some r \<longrightarrow> Signals_name P s = Inr n
             \<longrightarrow> CouldNotSetHandler n (reject_error r) \<in> set (logged st')"
        "blocked st' = blocked ?s1" "alarm st' = alarm ?s1"
        "graceful_shutdown_callback st' = graceful_shutdown_callback ?s1"
        "fin_handler st' = fin_handler ?s1" "next_id st' = next_id ?s1"
        "invoked st' = invoked ?s1"
      by auto
    have "set_loop P (sig # rest) h st = (None, st')"
      using n a st'(1) by simp
    moreover have "handlers st' = (\<lambda>s. if s \<in> set (sig # rest) \<and> signal_rejects P s = None then h else handlers st s)"
      using st'(2) a by (auto simp: emit_def fun_eq_iff)
    moreover have "installs st' = installs st @ map (\<lambda>s. (s, h)) (sig # rest)"
      using st'(3) by (simp add: emit_def)
    moreover have "set (logged st) \<subseteq> set (logged st')"
      using st'(4) by (auto simp: emit_def)
    moreover have "\<forall>s\<in>set (sig # rest). \<forall>r n. signal_rejects P s = Some r \<longrightarrow> Signals_name P s = Inr n
             \<longrightarrow> CouldNotSetHandler n (reject_error r) \<in> set (logged st')"
      using st'(5) a by auto
    ultimately show ?thesis
      using st'(6-11) by (simp add: emit_def)
  next
    assume "\<exists>r. signal_rejects P sig = Some r \<and>
          os_signal P sig h ?s0 = (Some (reject_error r), ?s0\<lparr>installs := installs ?s0 @ [(sig, h)]\<rparr>)"
    then obtain r where a: "signal_rejects P sig = Some r"
       "os_signal P sig h ?s0 = (Some (reject_error r), ?s0\<lparr>installs := installs ?s0 @ [(sig, h)]\<rparr>)"
      by blast
    let ?s1 = "emit (CouldNotSetHandler n (reject_error r)) (?s0\<lparr>installs := installs ?s0 @ [(sig, h)]\<rparr>)"
    from Cons.IH [of ?s1] Cons.prems obtain st' where
      st': "set_loop P rest h ?s1 = (None, st')"
        "handlers st' = (\<lambda>s. if s \<in> set rest \<and> signal_rejects P s = None then h else handlers ?s1 s)"
        "installs st' = installs ?s1 @ map (\<lambda>s. (s, h)) rest"
        "set (logged ?s1) \<subseteq> set (logged st')"
        "\<forall>s\<in>set rest. \<forall>r n. signal_rejects P s = Some r \<longrightarrow> Signals_name P s = Inr n
             \<longrightarrow> CouldNotSetHandler n (reject_error r) \<in> set (logged st')"
        "blocked st' = blocked ?s1" "alarm st' = alarm ?s1"
        "graceful_shutdown_callback st' = graceful_shutdown_callback ?s1"
        "fin_handler st' = fin_handler ?s1" "next_id st' = next_id ?s1"
        "invoked st' = invoked ?s1"
      by auto
    have "set_loop P (sig # rest) h st = (None, st')"
      using n a st'(1) by simp
    moreover have "handlers st' = (\<lambda>s. if s \<in> set (sig # rest) \<and> signal_rejects P s = None then h else handlers st s)"
      using st'(2) a by (auto simp: emit_def fun_eq_iff)
    moreover have "installs st' = installs st @ map (\<lambda>s. (s, h)) (sig # rest)"
      using st'(3) by (simp add: emit_def)
    moreover have "set (logged st) \<subseteq> set (logged st')"
      using st'(4) by (auto simp: emit_def)
    moreover have "\<forall>s\<in>set (sig # rest). \<forall>r n. signal_rejects P s = Some r \<longrightarrow> Signals_name P s = Inr n
             \<longrightarrow> CouldNotSetHandler n (reject_error r) \<in> set (logged st')"
      using st'(4,5) a n by (auto simp: emit_def)
    ultimately show ?thesis
      using st'(6-11) by (simp add: emit_def)
  qed
qed

lemma set_loop_raises_iff:
  assumes "installable h"
  shows "fst (set_loop P sigs h st) \<noteq> None \<longleftrightarrow> (\<exists>s\<in>set sigs. \<not> has_sig P (DInt s))"
proof (induction sigs arbitrary: st)
  case Nil
  then show ?case by simp
next
  case (Cons sig rest)
  show ?case
  proof (cases "has_sig P (DInt sig)")
    case False
    then show ?thesis using Signals_name_unknown [of P sig] by simp
  next
    case True
    then obtain n where n: "Signals_name P sig = Inr n"
      using Signals_name_known by blast
    from os_signal_cases [OF assms, of P sig "emit (SettingHandler n) st"]
    show ?thesis
      using n True Cons.IH by (elim disjE exE conjE) simp_all
  qed
qed


lemma resolve_reaction_cases:
  "(\<exists>h st1. resolve_reaction reaction st = (Inr h, st1) \<and> installable h
       \<and> handlers st1 = handlers st \<and> installs st1 = installs st
       \<and> set (logged st) \<subseteq> set (logged st1)
       \<and> (callable reaction \<or> (\<exists>r. reaction = Reaction r)))
   \<or> (resolve_reaction reaction st =
         (Inl (TypeError ''handler must be a SigReaction enum or a callable.''), st)
       \<and> \<not> callable reaction \<and> (\<forall>r. reaction \<noteq> Reaction r))"
proof (cases reaction)
  case (Reaction r)
  then show ?thesis
    by (cases r; cases "fin_handler st")
       (auto simp: resolve_reaction_def create_fin_handler_def installable_def emit_def Let_def)
qed (simp_all add: resolve_reaction_def installable_def)

section \<open>Batch installation\<close>

text \<open>
  A batch of members. For a valid reaction (one that \<open>resolve_reaction\<close> turns into a
  handler) and a batch that normalizes to \<open>sigs\<close>: \<^verbatim>\<open>set_handler\<close> raises exactly when
  some number of the batch is not a member of the \<^verbatim>\<open>Signals\<close> enum (the name lookup for
  the log message fails), whatever the platform rejects. When every number is a member,
  the call returns normally; \<^verbatim>\<open>signal.signal\<close> has been attempted for every signal of
  the batch, in order; a signal the platform accepts has the new handler and a signal it
  rejects keeps its disposition; and every rejection is reported by a warning record
  naming the signal.
\<close>

lemma set_handler_member_batch:
  assumes valid: "resolve_reaction reaction st = (Inr h, st1)"
      and norm: "normalize_signals signals = Inr sigs"
  shows "(fst (set_handler P signals reaction st) \<noteq> None
            \<longleftrightarrow> (\<exists>s\<in>set sigs. \<not> has_sig P (DInt s)))
       \<and> ((\<forall>s\<in>set sigs. has_sig P (DInt s)) \<longrightarrow>
            (\<exists>st'. set_handler P signals reaction st = (None, st')
               \<and> (\<forall>s. handlers st' s =
                       (if s \<in> set sigs \<and> signal_rejects P s = None then h else handlers st s))
               \<and> drop (length (installs st)) (installs st') = map (\<lambda>s. (s, h)) sigs
               \<and> (\<forall>s\<in>set sigs. \<forall>r n. signal_rejects P s = Some r \<longrightarrow> Signals_name P s = Inr n
                     \<longrightarrow> CouldNotSetHandler n (reject_error r) \<in> set (logged st'))))"
proof -
  from resolve_reaction_cases [of reaction st] valid
  have h: "installable h" "handlers st1 = handlers st" "installs st1 = installs st"
    by auto
  have eq: "set_handler P signals reaction st = set_loop P sigs h st1"
    using valid norm by (simp add: set_handler_def)
  have "fst (set_handler P signals reaction st) \<noteq> None
            \<longleftrightarrow> (\<exists>s\<in>set sigs. \<not> has_sig P (DInt s))"
    unfolding eq by (rule set_loop_raises_iff [OF h(1)])
  moreover have "(\<forall>s\<in>set sigs. has_sig P (DInt s)) \<longrightarrow>
            (\<exists>st'. set_handler P signals reaction st = (None, st')
               \<and> (\<forall>s. handlers st' s =
                       (if s \<in> set sigs \<and> signal_rejects P s = None then h else handlers st s))
               \<and> drop (length (installs st)) (installs st') = map (\<lambda>s. (s, h)) sigs
               \<and> (\<forall>s\<in>set sigs. \<forall>r n. signal_rejects P s = Some r \<longrightarrow> Signals_name P s = Inr n
                     \<longrightarrow> CouldNotSetHandler n (reject_error r) \<in> set (logged st')))"
  proof
    assume k: "\<forall>s\<in>set sigs. has_sig P (DInt s)"
    from set_loop_known [OF h(1) k, of st1] obtain st' where
      st': "set_loop P sigs h st1 = (None, st')"
        "handlers st' = (\<lambda>s. if s \<in> set sigs \<and> signal_rejects P s = None then h else handlers st1 s)"
        "installs st' = installs st1 @ map (\<lambda>s. (s, h)) sigs"
        "\<forall>s\<in>set sigs. \<forall>r n. signal_rejects P s = Some r \<longrightarrow> Signals_name P s = Inr n
             \<longrightarrow> CouldNotSetHandler n (reject_error r) \<in> set (logged st')"
      by blast
    show "\<exists>st'. set_handler P signals reaction st = (None, st')
               \<and> (\<forall>s. handlers st' s =
                       (if s \<in> set sigs \<and> signal_rejects P s = None then h else handlers st s))
               \<and> drop (length (installs st)) (installs st') = map (\<lambda>s. (s, h)) sigs
               \<and> (\<forall>s\<in>set sigs. \<forall>r n. signal_rejects P s = Some r \<longrightarrow> Signals_name P s = Inr n
                     \<longrightarrow> CouldNotSetHandler n (reject_error r) \<in> set (logged st'))"
      using st' h(2,3) eq by (intro exI [of _ st']) simp
  qed
  ultimately show ?thesis by blast
qed


lemma set_loop_append:
  "set_loop P (pre @ rest) h st =
     (case set_loop P pre h st of
        (None, st1) \<Rightarrow> set_loop P rest h st1
      | (Some e, st1) \<Rightarrow> (Some e, st1))"
proof (induction pre arbitrary: st)
  case Nil
  then show ?case by simp
next
  case (Cons s pre)
  show ?case
  proof (cases "Signals_name P s")
    case (Inl e)
    then show ?thesis by simp
  next
    case (Inr n)
    obtain r st1 where o: "os_signal P s h (emit (SettingHandler n) st) = (r, st1)"
      by (cases "os_signal P s h (emit (SettingHandler n) st)")
    show ?thesis
    proof (cases r)
      case None
      then show ?thesis using Inr o Cons.IH [of st1] by simp
    next
      case (Some e)
      then show ?thesis
        using Inr o Cons.IH [of "emit (CouldNotSetHandler n e) st1"] by simp
    qed
  qed
qed

text \<open>
  Claim C7 does not hold of the code. The rejection by \<^verbatim>\<open>signal.signal\<close> is caught and
  reported, but the name lookup \<^verbatim>\<open>Signals(sig).name\<close> on line 120 is outside the
  \<^verbatim>\<open>try\<close>: for a valid reaction and a batch in which the members \<open>pre\<close> are followed by
  a number \<open>u\<close> that is not a member of the enum, \<^verbatim>\<open>set_handler\<close> raises
  \<^verbatim>\<open>ValueError\<close>; it has attempted the signals of \<open>pre\<close> and nothing else, so no signal
  after \<open>u\<close> in the batch is installed, whatever the platform would accept.
\<close>

theorem set_handler_aborts_at_non_member:
  assumes valid: "resolve_reaction reaction st = (Inr h, st1)"
      and norm: "normalize_signals signals = Inr (pre @ u # post)"
      and pre: "\<forall>s\<in>set pre. has_sig P (DInt s)"
      and u: "\<not> has_sig P (DInt u)"
  shows "\<exists>st'. set_handler P signals reaction st = (Some (ValueError ''not a valid Signals''), st')
       \<and> installs st' = installs st @ map (\<lambda>s. (s, h)) pre
       \<and> (\<forall>s. handlers st' s =
             (if s \<in> set pre \<and> signal_rejects P s = None then h else handlers st s))"
proof -
  from resolve_reaction_cases [of reaction st] valid
  have h: "installable h" "handlers st1 = handlers st" "installs st1 = installs st"
    by auto
  have eq: "set_handler P signals reaction st = set_loop P (pre @ u # post) h st1"
    using valid norm by (simp add: set_handler_def)
  from set_loop_known [OF h(1) pre, of st1] obtain st' where
    st': "set_loop P pre h st1 = (None, st')"
      "handlers st' = (\<lambda>s. if s \<in> set pre \<and> signal_rejects P s = None then h else handlers st1 s)"
      "installs st' = installs st1 @ map (\<lambda>s. (s, h)) pre"
    by blast
  have "set_loop P (u # post) h st' = (Some (ValueError ''not a valid Signals''), st')"
    using Signals_name_unknown [OF u] by simp
  then have "set_handler P signals reaction st = (Some (ValueError ''not a valid Signals''), st')"
    unfolding eq set_loop_append using st'(1) by simp
  then show ?thesis
    using st'(2,3) h(2,3) by (intro exI [of _ st']) simp
qed

theorem set_handler_aborts_at_non_member_witness:
  "resolve_reaction (Reaction ign) fresh = (Inr SIG_IGN, snd (resolve_reaction (Reaction ign) fresh))
   \<and> normalize_signals (Many [DInt 9, DInt 99, DInt 15]) = Inr ([9] @ 99 # [15])
   \<and> has_sig linux (DInt 9) \<and> \<not> has_sig linux (DInt 99) \<and> has_sig linux (DInt 15)
   \<and> signal_rejects linux 9 = Some RejectOSError \<and> signal_rejects linux 15 = None
   \<and> fst (set_handler linux (Many [DInt 9, DInt 99, DInt 15]) (Reaction ign) fresh)
       = Some (ValueError ''not a valid Signals'')
   \<and> installs (snd (set_handler linux (Many [DInt 9, DInt 99, DInt 15]) (Reaction ign) fresh))
       = [(9, SIG_IGN)]
   \<and> handlers (snd (set_handler linux (Many [DInt 9, DInt 99, DInt 15]) (Reaction ign) fresh)) 15
       = SIG_DFL"
proof -
  have h1: "resolve_reaction (Reaction ign) fresh
              = (Inr SIG_IGN, snd (resolve_reaction (Reaction ign) fresh))"
    by (simp add: resolve_reaction_def create_fin_handler_def fresh_def Let_def)
  have h2: "normalize_signals (Many [DInt 9, DInt 99, DInt 15]) = Inr ([9] @ 99 # [15])"
    by simp
  have k: "has_sig linux (DInt 9)" "\<not> has_sig linux (DInt 99)" "has_sig linux (DInt 15)"
    by (simp_all add: linux_def linux_signals_def)
  have p: "\<forall>s\<in>set [9]. has_sig linux (DInt s)" using k(1) by simp
  have r: "signal_rejects linux 9 = Some RejectOSError" "signal_rejects linux 15 = None"
    by (simp_all add: linux_def)
  from set_handler_aborts_at_non_member [OF h1 h2 p k(2)]
  obtain st' where
    st': "set_handler linux (Many [DInt 9, DInt 99, DInt 15]) (Reaction ign) fresh
            = (Some (ValueError ''not a valid Signals''), st')"
      "installs st' = installs fresh @ map (\<lambda>s. (s, SIG_IGN)) [9]"
      "\<forall>s. handlers st' s =
             (if s \<in> set [9] \<and> signal_rejects linux s = None then SIG_IGN else handlers fresh s)"
    by (elim exE conjE) (rule that; assumption)
  have "installs st' = [(9, SIG_IGN)]" "handlers st' 15 = SIG_DFL"
    using st'(2,3) by (simp_all add: fresh_def)
  then show ?thesis
    using h1 h2 k r st'(1) by simp
qed

section \<open>Argument checks\<close>

text \<open>
  Claim C9. For every order other than the strings "before" and "after",
  \<^verbatim>\<open>chain_handler\<close> raises \<^verbatim>\<open>ValueError\<close> and the state is the one it was called in:
  the result does not depend on the signal, the callback or the disposition table, no
  \<^verbatim>\<open>signal.signal\<close> call is recorded and no disposition has changed.
\<close>

theorem chain_handler_rejects_order:
  assumes "ord \<noteq> ''before''" and "ord \<noteq> ''after''"
  shows "chain_handler P sig callback ord st =
           (Some (ValueError ''Order must be before or after.''), st)"
  using assms by (simp add: chain_handler_def)

theorem chain_handler_rejects_order_witness:
  "''first'' \<noteq> ''before'' \<and> ''first'' \<noteq> ''after'' \<and>
   chain_handler linux (DInt 2) (UserCallable 1 True True) ''first'' fresh =
     (Some (ValueError ''Order must be before or after.''), fresh)"
  using chain_handler_rejects_order [of "''first''" linux "DInt 2" "UserCallable 1 True True" fresh]
  by simp

text \<open>
  Claim C10. For every argument that is not callable, \<^verbatim>\<open>graceful_shutdown\<close> raises
  \<^verbatim>\<open>TypeError\<close> and the state is the one it was called in: the stored shutdown callback
  is not replaced and nothing is installed.
\<close>

theorem graceful_shutdown_rejects_non_callable:
  assumes "\<not> callable callback"
  shows "graceful_shutdown P callback st =
           (Some (TypeError ''Provided callback must be a callable function.''), st)"
  using assms by (simp add: graceful_shutdown_def)

theorem graceful_shutdown_rejects_non_callable_witness:
  "\<not> callable PyNone \<and>
   graceful_shutdown linux PyNone (fresh\<lparr>graceful_shutdown_callback := Some (UserCallable 1 True True)\<rparr>) =
     (Some (TypeError ''Provided callback must be a callable function.''),
      fresh\<lparr>graceful_shutdown_callback := Some (UserCallable 1 True True)\<rparr>)"
  using graceful_shutdown_rejects_non_callable
          [of PyNone linux "fresh\<lparr>graceful_shutdown_callback := Some (UserCallable 1 True True)\<rparr>"]
  by simp

section \<open>The cached terminate handler\<close>

lemma os_signal_frame:
  "blocked (snd (os_signal P sig h st)) = blocked st"
  "alarm (snd (os_signal P sig h st)) = alarm st"
  "graceful_shutdown_callback (snd (os_signal P sig h st)) = graceful_shutdown_callback st"
  "fin_handler (snd (os_signal P sig h st)) = fin_handler st"
  "next_id (snd (os_signal P sig h st)) = next_id st"
  "logged (snd (os_signal P sig h st)) = logged st"
  "invoked (snd (os_signal P sig h st)) = invoked st"
  "installs (snd (os_signal P sig h st)) = installs st @ [(sig, h)]"
  by (simp_all add: os_signal_def Let_def)

lemma set_loop_frame:
  "blocked (snd (set_loop P sigs h st)) = blocked st
   \<and> alarm (snd (set_loop P sigs h st)) = alarm st
   \<and> graceful_shutdown_callback (snd (set_loop P sigs h st)) = graceful_shutdown_callback st
   \<and> fin_handler (snd (set_loop P sigs h st)) = fin_handler st
   \<and> next_id (snd (set_loop P sigs h st)) = next_id st
   \<and> invoked (snd (set_loop P sigs h st)) = invoked st
   \<and> fin_creations (snd (set_loop P sigs h st)) = fin_creations st"
proof (induction sigs arbitrary: st)
  case Nil
  then show ?case by simp
next
  case (Cons sig rest)
  show ?case
  proof (cases "Signals_name P sig")
    case (Inl e)
    then show ?thesis by simp
  next
    case (Inr n)
    obtain r st1 where o: "os_signal P sig h (emit (SettingHandler n) st) = (r, st1)"
      by (cases "os_signal P sig h (emit (SettingHandler n) st)")
    from os_signal_frame [of P sig h "emit (SettingHandler n) st"] o
    have f: "blocked st1 = blocked st" "alarm st1 = alarm st"
      "graceful_shutdown_callback st1 = graceful_shutdown_callback st"
      "fin_handler st1 = fin_handler st" "next_id st1 = next_id st"
      "invoked st1 = invoked st" "fin_creations st1 = fin_creations st"
      by (simp_all add: emit_def fin_creations_def)
    show ?thesis
    proof (cases r)
      case None
      then show ?thesis using Inr o f Cons.IH [of st1] by simp
    next
      case (Some e)
      then show ?thesis
        using Inr o f Cons.IH [of "emit (CouldNotSetHandler n e) st1"]
        by (simp add: emit_def fin_creations_def)
    qed
  qed
qed

lemma create_fin_handler_cases:
  "(fin_handler st = None \<and> fst (create_fin_handler st) = FinHandler (next_id st)
      \<and> fin_handler (snd (create_fin_handler st)) = Some (next_id st)
      \<and> fin_creations (snd (create_fin_handler st)) = Suc (fin_creations st))
   \<or> (\<exists>i. fin_handler st = Some i \<and> create_fin_handler st = (FinHandler i, st))"
  by (cases "fin_handler st") (simp_all add: create_fin_handler_def Let_def emit_def fin_creations_def)

lemma resolve_reaction_fin:
  "fin_handler st = Some i \<Longrightarrow>
     fin_handler (snd (resolve_reaction reaction st)) = Some i
   \<and> fin_creations (snd (resolve_reaction reaction st)) = fin_creations st
   \<and> resolve_reaction (Reaction fin) st = (Inr (FinHandler i), st)"
  by (cases reaction) (simp_all add: resolve_reaction_def create_fin_handler_def)

lemma resolve_reaction_inv:
  "fin_inv st \<Longrightarrow> fin_inv (snd (resolve_reaction reaction st))"
proof (cases reaction)
  case (Reaction r)
  assume "fin_inv st"
  then show ?thesis
    using Reaction create_fin_handler_cases [of st]
    by (auto simp: resolve_reaction_def fin_inv_def split_beta)
qed (simp_all add: resolve_reaction_def)

lemma set_handler_fin_fields:
  "fin_handler (snd (set_handler P signals reaction st)) = fin_handler st
     \<and> fin_creations (snd (set_handler P signals reaction st)) = fin_creations st
   \<or> fin_handler (snd (set_handler P signals reaction st))
        = fin_handler (snd (resolve_reaction reaction st))
     \<and> fin_creations (snd (set_handler P signals reaction st))
        = fin_creations (snd (resolve_reaction reaction st))"
proof (cases "normalize_signals signals")
  case (Inl e)
  then show ?thesis by (simp add: set_handler_def)
next
  case (Inr sigs)
  obtain x st1 where r: "resolve_reaction reaction st = (x, st1)"
    by (cases "resolve_reaction reaction st")
  show ?thesis
  proof (cases x)
    case (Inl e)
    then show ?thesis using Inr r by (simp add: set_handler_def)
  next
    case (Inr h)
    then show ?thesis
      using \<open>normalize_signals signals = Inr sigs\<close> r set_loop_frame [of P sigs h st1]
      by (simp add: set_handler_def)
  qed
qed

lemma set_handler_fin:
  "fin_handler st = Some i \<Longrightarrow>
     fin_handler (snd (set_handler P signals reaction st)) = Some i
   \<and> fin_creations (snd (set_handler P signals reaction st)) = fin_creations st"
  using resolve_reaction_fin [of st i reaction] set_handler_fin_fields [of P signals reaction st]
  by auto

lemma set_handler_inv:
  assumes a: "fin_inv st"
  shows "fin_inv (snd (set_handler P signals reaction st))"
proof -
  from resolve_reaction_inv [OF a]
  have b: "fin_inv (snd (resolve_reaction reaction st))" .
  from set_handler_fin_fields [of P signals reaction st]
  show ?thesis
  proof (elim disjE conjE)
    assume "fin_handler (snd (set_handler P signals reaction st)) = fin_handler st"
      "fin_creations (snd (set_handler P signals reaction st)) = fin_creations st"
    then show ?thesis using a by (simp add: fin_inv_def)
  next
    assume "fin_handler (snd (set_handler P signals reaction st))
              = fin_handler (snd (resolve_reaction reaction st))"
      "fin_creations (snd (set_handler P signals reaction st))
              = fin_creations (snd (resolve_reaction reaction st))"
    then show ?thesis using b by (simp add: fin_inv_def)
  qed
qed

lemma graceful_shutdown_state:
  "snd (graceful_shutdown P cb st) = st
   \<or> snd (graceful_shutdown P cb st) =
       snd (set_handler P
              (Many (map (\<lambda>(n, v). DMember n v)
                 (filter (\<lambda>(n, v). n \<noteq> ''SIGKILL'') (terminating_by_default P))))
              (Reaction fin)
              ((emit RegisteringGraceful st)\<lparr>graceful_shutdown_callback := Some cb\<rparr>))"
  by (simp add: graceful_shutdown_def Let_def)

lemma chain_handler_state:
  "snd (chain_handler P sig cb ord st) = st
   \<or> (\<exists>n h. snd (chain_handler P sig cb ord st) =
         snd (set_handler P (Single sig) h
                ((emit (ChainingCallback n ord) st)\<lparr>next_id := next_id st + 1\<rparr>)))"
  by (auto simp: chain_handler_def Let_def split: sum.splits)

lemma run_call_fin:
  assumes a: "fin_handler st = Some i"
  shows "fin_handler (run_call P c st) = Some i \<and> fin_creations (run_call P c st) = fin_creations st"
proof (cases c)
  case (SetHandler signals reaction)
  then show ?thesis using a set_handler_fin by simp
next
  case (GracefulShutdown cb)
  let ?st1 = "(emit RegisteringGraceful st)\<lparr>graceful_shutdown_callback := Some cb\<rparr>"
  have "fin_handler ?st1 = Some i" "fin_creations ?st1 = fin_creations st"
    using a by (simp_all add: emit_def fin_creations_def)
  then show ?thesis
    using GracefulShutdown a set_handler_fin [of ?st1 i P] graceful_shutdown_state [of P cb st]
    by auto
next
  case (ChainHandler sig cb ord)
  from chain_handler_state [of P sig cb ord st]
  show ?thesis
  proof
    assume "snd (chain_handler P sig cb ord st) = st"
    then show ?thesis using ChainHandler a by simp
  next
    assume "\<exists>n h. snd (chain_handler P sig cb ord st) =
         snd (set_handler P (Single sig) h
                ((emit (ChainingCallback n ord) st)\<lparr>next_id := next_id st + 1\<rparr>))"
    then obtain n h where e: "snd (chain_handler P sig cb ord st) =
         snd (set_handler P (Single sig) h
                ((emit (ChainingCallback n ord) st)\<lparr>next_id := next_id st + 1\<rparr>))"
      by blast
    let ?st1 = "(emit (ChainingCallback n ord) st)\<lparr>next_id := next_id st + 1\<rparr>"
    have "fin_handler ?st1 = Some i" "fin_creations ?st1 = fin_creations st"
      using a by (simp_all add: emit_def fin_creations_def)
    then show ?thesis
      using ChainHandler e set_handler_fin [of ?st1 i P "Single sig" h] by simp
  qed
qed

lemma run_call_inv:
  assumes a: "fin_inv st"
  shows "fin_inv (run_call P c st)"
proof (cases c)
  case (SetHandler signals reaction)
  then show ?thesis using a set_handler_inv by simp
next
  case (GracefulShutdown cb)
  let ?st1 = "(emit RegisteringGraceful st)\<lparr>graceful_shutdown_callback := Some cb\<rparr>"
  have "fin_inv ?st1"
    using a by (simp add: emit_def fin_creations_def fin_inv_def)
  then show ?thesis
    using GracefulShutdown a set_handler_inv [of ?st1 P] graceful_shutdown_state [of P cb st]
    by auto
next
  case (ChainHandler sig cb ord)
  from chain_handler_state [of P sig cb ord st]
  show ?thesis
  proof
    assume "snd (chain_handler P sig cb ord st) = st"
    then show ?thesis using ChainHandler a by simp
  next
    assume "\<exists>n h. snd (chain_handler P sig cb ord st) =
         snd (set_handler P (Single sig) h
                ((emit (ChainingCallback n ord) st)\<lparr>next_id := next_id st + 1\<rparr>))"
    then obtain n h where e: "snd (chain_handler P sig cb ord st) =
         snd (set_handler P (Single sig) h
                ((emit (ChainingCallback n ord) st)\<lparr>next_id := next_id st + 1\<rparr>))"
      by blast
    let ?st1 = "(emit (ChainingCallback n ord) st)\<lparr>next_id := next_id st + 1\<rparr>"
    have "fin_inv ?st1"
      using a by (simp add: emit_def fin_creations_def fin_inv_def)
    then show ?thesis
      using ChainHandler e set_handler_inv [of ?st1 P "Single sig" h] by simp
  qed
qed

lemma run_calls_fin:
  "fin_handler st = Some i \<Longrightarrow>
     fin_handler (run_calls P cs st) = Some i \<and> fin_creations (run_calls P cs st) = fin_creations st"
  by (induction cs arbitrary: st) (simp_all add: run_call_fin)

lemma run_calls_inv: "fin_inv st \<Longrightarrow> fin_inv (run_calls P cs st)"
  by (induction cs arbitrary: st) (simp_all add: run_call_inv)

text \<open>
  Claim C8, as amended. On one instance the terminate handler is created at most once:
  over any sequence of calls starting from an instance without one, line 83 is reached
  at most once; once the cache holds the closure it holds the same object after any
  further calls, nothing is created again, and every later Terminate resolution yields
  that identical object. The creation happens in the first \<^verbatim>\<open>set_handler\<close> call whose
  reaction is any \<^verbatim>\<open>SigReaction\<close> member (dflt, ign or fin) and whose signals normalize.
\<close>

theorem fin_handler_created_once:
  "(fin_handler st = None \<and> fin_creations st = 0 \<longrightarrow> fin_creations (run_calls P cs st) \<le> 1)
   \<and> (fin_handler st = Some i \<longrightarrow>
        fin_handler (run_calls P cs st) = Some i
      \<and> fin_creations (run_calls P cs st) = fin_creations st
      \<and> resolve_reaction (Reaction fin) (run_calls P cs st) = (Inr (FinHandler i), run_calls P cs st))
   \<and> (normalize_signals signals = Inr sigs \<longrightarrow>
        fin_handler (snd (set_handler P signals (Reaction r) st)) \<noteq> None)"
proof (intro conjI impI)
  assume "fin_handler st = None \<and> fin_creations st = 0"
  then have "fin_inv st" by (simp add: fin_inv_def)
  then have "fin_inv (run_calls P cs st)" by (rule run_calls_inv)
  then show "fin_creations (run_calls P cs st) \<le> 1"
    by (simp add: fin_inv_def)
next
  assume a: "fin_handler st = Some i"
  from run_calls_fin [OF a, of P cs]
  show "fin_handler (run_calls P cs st) = Some i"
    and "fin_creations (run_calls P cs st) = fin_creations st"
    by simp_all
  from run_calls_fin [OF a, of P cs] resolve_reaction_fin
  show "resolve_reaction (Reaction fin) (run_calls P cs st) = (Inr (FinHandler i), run_calls P cs st)"
    by blast
next
  assume n: "normalize_signals signals = Inr sigs"
  from create_fin_handler_cases [of st]
  have "fin_handler (snd (create_fin_handler st)) \<noteq> None" by auto
  then have "fin_handler (snd (resolve_reaction (Reaction r) st)) \<noteq> None"
    by (simp add: resolve_reaction_def split_beta)
  moreover obtain x st1 where x: "resolve_reaction (Reaction r) st = (Inr x, st1)"
    by (simp add: resolve_reaction_def split_beta)
  ultimately show "fin_handler (snd (set_handler P signals (Reaction r) st)) \<noteq> None"
    using n set_loop_frame [of P sigs x st1] by (simp add: set_handler_def)
qed


theorem fin_handler_created_once_witness:
  "fin_handler fresh = None \<and> fin_creations fresh = 0
   \<and> fin_creations
        (run_calls linux
           [SetHandler (Single (DInt 2)) (Reaction ign),
            GracefulShutdown (UserCallable 1 True True),
            SetHandler (Single (DInt 15)) (Reaction fin)] fresh) \<le> 1
   \<and> fin_handler (fresh\<lparr>fin_handler := Some 0\<rparr>) = Some 0
   \<and> fin_handler
        (run_calls linux [SetHandler (Single (DInt 15)) (Reaction fin)]
           (fresh\<lparr>fin_handler := Some 0\<rparr>)) = Some 0
   \<and> normalize_signals (Single (DInt 2)) = Inr [2]
   \<and> fin_handler (snd (set_handler linux (Single (DInt 2)) (Reaction ign) fresh)) \<noteq> None"
proof -
  have a: "fin_handler fresh = None \<and> fin_creations fresh = 0"
    by (simp add: fresh_def fin_creations_def)
  have b: "fin_handler (fresh\<lparr>fin_handler := Some 0\<rparr>) = Some 0"
    by simp
  have c: "normalize_signals (Single (DInt 2)) = Inr [2]"
    by simp
  from a fin_handler_created_once [of fresh linux
        "[SetHandler (Single (DInt 2)) (Reaction ign),
          GracefulShutdown (UserCallable 1 True True),
          SetHandler (Single (DInt 15)) (Reaction fin)]"]
  have "fin_creations
        (run_calls linux
           [SetHandler (Single (DInt 2)) (Reaction ign),
            GracefulShutdown (UserCallable 1 True True),
            SetHandler (Single (DInt 15)) (Reaction fin)] fresh) \<le> 1"
    by blast
  moreover from b fin_handler_created_once
      [of "fresh\<lparr>fin_handler := Some 0\<rparr>" linux
          "[SetHandler (Single (DInt 15)) (Reaction fin)]" 0]
  have "fin_handler
        (run_calls linux [SetHandler (Single (DInt 15)) (Reaction fin)]
           (fresh\<lparr>fin_handler := Some 0\<rparr>)) = Some 0"
    by blast
  moreover from c fin_handler_created_once [of fresh linux "[]" 0 "Single (DInt 2)" "[2]" ign]
  have "fin_handler (snd (set_handler linux (Single (DInt 2)) (Reaction ign) fresh)) \<noteq> None"
    by blast
  ultimately show ?thesis using a b c by blast
qed

text \<open>
  The claim as stated fails: on a new instance, installing the Ignore reaction already
  creates and caches the terminate handler, although Terminate was never used.
\<close>

theorem fin_handler_created_by_ignore:
  "fin_handler fresh = None
   \<and> fin_handler (snd (set_handler linux (Single (DInt 2)) (Reaction ign) fresh)) = Some 0
   \<and> logged (snd (set_handler linux (Single (DInt 2)) (Reaction ign) fresh))
       = [CreatingFinHandler, SettingHandler ''SIGINT'']
   \<and> handlers (snd (set_handler linux (Single (DInt 2)) (Reaction ign) fresh)) 2 = SIG_IGN"
  by (simp add: set_handler_def resolve_reaction_def create_fin_handler_def Signals_name_def
        os_signal_def installable_def emit_def linux_def linux_signals_def fresh_def Let_def)

section \<open>Graceful shutdown\<close>

lemma resolve_reaction_frame:
  "handlers (snd (resolve_reaction reaction st)) = handlers st
   \<and> installs (snd (resolve_reaction reaction st)) = installs st
   \<and> blocked (snd (resolve_reaction reaction st)) = blocked st
   \<and> alarm (snd (resolve_reaction reaction st)) = alarm st
   \<and> invoked (snd (resolve_reaction reaction st)) = invoked st
   \<and> graceful_shutdown_callback (snd (resolve_reaction reaction st)) = graceful_shutdown_callback st"
proof (cases reaction)
  case (Reaction r)
  then show ?thesis
    by (cases "fin_handler st")
       (simp_all add: resolve_reaction_def create_fin_handler_def emit_def Let_def)
qed (simp_all add: resolve_reaction_def)

lemma set_handler_known:
  assumes r: "resolve_reaction reaction st = (Inr h, st1)"
      and n: "normalize_signals signals = Inr sigs"
      and k: "\<forall>s\<in>set sigs. has_sig P (DInt s)"
  shows "\<exists>st'. set_handler P signals reaction st = (None, st')
       \<and> handlers st' = (\<lambda>s. if s \<in> set sigs \<and> signal_rejects P s = None then h else handlers st s)
       \<and> installs st' = installs st @ map (\<lambda>s. (s, h)) sigs
       \<and> blocked st' = blocked st \<and> alarm st' = alarm st \<and> invoked st' = invoked st
       \<and> graceful_shutdown_callback st' = graceful_shutdown_callback st
       \<and> fin_handler st' = fin_handler st1 \<and> next_id st' = next_id st1"
proof -
  from resolve_reaction_cases [of reaction st] r have i: "installable h" by auto
  from resolve_reaction_frame [of reaction st] r
  have f: "handlers st1 = handlers st" "installs st1 = installs st" "blocked st1 = blocked st"
    "alarm st1 = alarm st" "invoked st1 = invoked st"
    "graceful_shutdown_callback st1 = graceful_shutdown_callback st"
    by simp_all
  have eq: "set_handler P signals reaction st = set_loop P sigs h st1"
    using r n by (simp add: set_handler_def)
  from set_loop_known [OF i k, of st1] obtain st' where
    st': "set_loop P sigs h st1 = (None, st')"
      "handlers st' = (\<lambda>s. if s \<in> set sigs \<and> signal_rejects P s = None then h else handlers st1 s)"
      "installs st' = installs st1 @ map (\<lambda>s. (s, h)) sigs"
      "blocked st' = blocked st1" "alarm st' = alarm st1" "invoked st' = invoked st1"
      "graceful_shutdown_callback st' = graceful_shutdown_callback st1"
      "fin_handler st' = fin_handler st1" "next_id st' = next_id st1"
    by blast
  show ?thesis
    unfolding eq using st' by (intro exI [of _ st']) (simp add: f cong: if_cong)
qed

lemma resolve_fin:
  "\<exists>i st1. resolve_reaction (Reaction fin) st = (Inr (FinHandler i), st1) \<and> fin_handler st1 = Some i"
  by (cases "fin_handler st") (simp_all add: resolve_reaction_def create_fin_handler_def Let_def)

lemma members_from_subset: "set (members_from seen xs) \<subseteq> set xs"
  by (induction seen xs rule: members_from.induct) auto

lemma terminating_known:
  "(n, v) \<in> set (terminating_by_default P) \<Longrightarrow> has_sig P (DInt v)"
  using members_from_subset [of "[]" "available_signals P"]
  by (force simp: terminating_by_default_def Signals_members_def)

lemma int_each_members: "int_each (map (\<lambda>(n, v). DMember n v) xs) = Inr (map snd xs)"
  by (induction xs) (auto split: prod.splits)

lemma call2_fin:
  assumes "graceful_shutdown_callback s = Some (UserCallable k hn True)"
      and "has_sig P (DInt v)" and "beh k NoArgs = None"
  shows "fst (call2 P beh (FinHandler i) v s) = Some (SystemExit (128 + v))
       \<and> new_calls P beh (FinHandler i) v s = [(k, NoArgs)]"
proof -
  from assms(2) obtain n where "Signals_name P v = Inr n"
    using Signals_name_known by blast
  then show ?thesis
    using assms(1,3) by (simp add: new_calls_def emit_def Let_def)
qed

lemma linux_terminating:
  "terminating_by_default linux =
     [(''SIGHUP'', 1), (''SIGINT'', 2), (''SIGQUIT'', 3), (''SIGILL'', 4), (''SIGFPE'', 8),
      (''SIGSEGV'', 11), (''SIGPIPE'', 13), (''SIGALRM'', 14), (''SIGTERM'', 15),
      (''SIGUSR1'', 10), (''SIGUSR2'', 12), (''SIGVTALRM'', 26), (''SIGPROF'', 27),
      (''SIGXCPU'', 24), (''SIGXFSZ'', 25)]"
  by (simp add: terminating_by_default_def Signals_members_def linux_def linux_signals_def
        terminating_names_def)

text \<open>
  Claim C3. For a callable with a \<^verbatim>\<open>__name__\<close>, \<^verbatim>\<open>graceful_shutdown\<close> returns normally,
  stores the callback and has the cached terminate handler as the disposition of every
  signal of the terminating-by-default set (other than SIGKILL) that the platform lets
  be caught. When such a signal with number \<open>v\<close> is then delivered and the callback is a
  true-valued callable that returns, the handler calls the callback exactly once, with no
  arguments, and leaves by \<^verbatim>\<open>sys.exit(128 + v)\<close>.
\<close>

theorem graceful_shutdown_installs_terminate:
  assumes c: "callable cb" and hn: "has_name cb"
  shows "\<exists>st' i. graceful_shutdown P cb st = (None, st')
        \<and> fin_handler st' = Some i \<and> graceful_shutdown_callback st' = Some cb
        \<and> (\<forall>(n, v)\<in>set (terminating_by_default P).
              n \<noteq> ''SIGKILL'' \<and> signal_rejects P v = None \<longrightarrow>
                handlers st' v = FinHandler i
              \<and> (\<forall>k h. cb = UserCallable k h True \<and> beh k NoArgs = None \<longrightarrow>
                    fst (call2 P beh (handlers st' v) v st') = Some (SystemExit (128 + v))
                  \<and> new_calls P beh (handlers st' v) v st' = [(k, NoArgs)]))"
proof -
  let ?st1 = "(emit RegisteringGraceful st)\<lparr>graceful_shutdown_callback := Some cb\<rparr>"
  let ?sel = "filter (\<lambda>(n, v). n \<noteq> ''SIGKILL'') (terminating_by_default P)"
  let ?arg = "Many (map (\<lambda>(n, v). DMember n v) ?sel)"
  have g: "graceful_shutdown P cb st = set_handler P ?arg (Reaction fin) ?st1"
    using c hn by (simp add: graceful_shutdown_def Let_def)
  from resolve_fin [of ?st1] obtain i st2 where
    r: "resolve_reaction (Reaction fin) ?st1 = (Inr (FinHandler i), st2)" "fin_handler st2 = Some i"
    by blast
  have n: "normalize_signals ?arg = Inr (map snd ?sel)"
    by (simp add: int_each_members)
  have k: "\<forall>s\<in>set (map snd ?sel). has_sig P (DInt s)"
    using terminating_known by auto
  from set_handler_known [OF r(1) n k] obtain st' where
    st': "set_handler P ?arg (Reaction fin) ?st1 = (None, st')"
      "handlers st' = (\<lambda>s. if s \<in> set (map snd ?sel) \<and> signal_rejects P s = None
                           then FinHandler i else handlers ?st1 s)"
      "graceful_shutdown_callback st' = graceful_shutdown_callback ?st1"
      "fin_handler st' = fin_handler st2"
    by blast
  have "\<forall>(n, v)\<in>set (terminating_by_default P).
              n \<noteq> ''SIGKILL'' \<and> signal_rejects P v = None \<longrightarrow>
                handlers st' v = FinHandler i
              \<and> (\<forall>k h. cb = UserCallable k h True \<and> beh k NoArgs = None \<longrightarrow>
                    fst (call2 P beh (handlers st' v) v st') = Some (SystemExit (128 + v))
                  \<and> new_calls P beh (handlers st' v) v st' = [(k, NoArgs)])"
  proof (intro ballI, clarify)
    fix n v
    assume m: "(n, v) \<in> set (terminating_by_default P)" "n \<noteq> ''SIGKILL''"
      "signal_rejects P v = None"
    then have "v \<in> set (map snd ?sel)" by force
    then have h: "handlers st' v = FinHandler i" using st'(2) m(3) by simp
    have "\<forall>k h. cb = UserCallable k h True \<and> beh k NoArgs = None \<longrightarrow>
                    fst (call2 P beh (FinHandler i) v st') = Some (SystemExit (128 + v))
                  \<and> new_calls P beh (FinHandler i) v st' = [(k, NoArgs)]"
      using call2_fin [of st' _ _ P v beh i] st'(3) terminating_known [OF m(1)] by simp
    then show "handlers st' v = FinHandler i
              \<and> (\<forall>k h. cb = UserCallable k h True \<and> beh k NoArgs = None \<longrightarrow>
                    fst (call2 P beh (handlers st' v) v st') = Some (SystemExit (128 + v))
                  \<and> new_calls P beh (handlers st' v) v st' = [(k, NoArgs)])"
      using h by simp
  qed
  then show ?thesis
    using g st'(1,3,4) r(2) by auto
qed


theorem graceful_shutdown_installs_terminate_witness:
  "callable (UserCallable 7 True True) \<and> has_name (UserCallable 7 True True)
   \<and> (''SIGTERM'', 15) \<in> set (terminating_by_default linux)
   \<and> signal_rejects linux 15 = None \<and> all_return 7 NoArgs = None
   \<and> fst (graceful_shutdown linux (UserCallable 7 True True) fresh) = None
   \<and> fin_handler (snd (graceful_shutdown linux (UserCallable 7 True True) fresh)) = Some 0
   \<and> handlers (snd (graceful_shutdown linux (UserCallable 7 True True) fresh)) 15 = FinHandler 0
   \<and> fst (call2 linux all_return
             (handlers (snd (graceful_shutdown linux (UserCallable 7 True True) fresh)) 15) 15
             (snd (graceful_shutdown linux (UserCallable 7 True True) fresh)))
        = Some (SystemExit 143)
   \<and> new_calls linux all_return
        (handlers (snd (graceful_shutdown linux (UserCallable 7 True True) fresh)) 15) 15
        (snd (graceful_shutdown linux (UserCallable 7 True True) fresh)) = [(7, NoArgs)]"
proof -
  let ?cb = "UserCallable 7 True True"
  have m: "(''SIGTERM'', 15) \<in> set (terminating_by_default linux)"
    by (simp add: linux_terminating)
  have r: "signal_rejects linux 15 = None" by (simp add: linux_def)
  have b: "all_return 7 NoArgs = None" by (simp add: all_return_def)
  from graceful_shutdown_installs_terminate [of ?cb linux fresh all_return]
  obtain st' i where st': "graceful_shutdown linux ?cb fresh = (None, st')"
      "fin_handler st' = Some i"
      "\<forall>(n, v)\<in>set (terminating_by_default linux).
              n \<noteq> ''SIGKILL'' \<and> signal_rejects linux v = None \<longrightarrow>
                handlers st' v = FinHandler i
              \<and> (\<forall>k h. ?cb = UserCallable k h True \<and> all_return k NoArgs = None \<longrightarrow>
                    fst (call2 linux all_return (handlers st' v) v st') = Some (SystemExit (128 + v))
                  \<and> new_calls linux all_return (handlers st' v) v st' = [(k, NoArgs)])"
    by auto
  have g: "graceful_shutdown linux ?cb fresh =
             set_handler linux
               (Many (map (\<lambda>(n, v). DMember n v)
                  (filter (\<lambda>(n, v). n \<noteq> ''SIGKILL'') (terminating_by_default linux))))
               (Reaction fin)
               ((emit RegisteringGraceful fresh)\<lparr>graceful_shutdown_callback := Some ?cb\<rparr>)"
    by (simp add: graceful_shutdown_def Let_def)
  have i: "i = 0"
  proof -
    let ?s1 = "(emit RegisteringGraceful fresh)\<lparr>graceful_shutdown_callback := Some ?cb\<rparr>"
    let ?L = "map snd (filter (\<lambda>(n, v). n \<noteq> ''SIGKILL'') (terminating_by_default linux))"
    obtain s2 where rr: "resolve_reaction (Reaction fin) ?s1 = (Inr (FinHandler 0), s2)"
      "fin_handler s2 = Some 0"
      by (simp add: resolve_reaction_def create_fin_handler_def emit_def fresh_def Let_def)
    have "set_loop linux ?L (FinHandler 0) s2 = (None, st')"
      using st'(1) rr(1) unfolding g set_handler_def
      by (simp add: int_each_members)
    moreover have "fin_handler (snd (set_loop linux ?L (FinHandler 0) s2)) = fin_handler s2"
      using set_loop_frame by blast
    ultimately have "fin_handler st' = Some 0"
      using rr(2) by simp
    then show ?thesis using st'(2) by simp
  qed
  from st'(3) m r b
  have "handlers st' 15 = FinHandler i
      \<and> fst (call2 linux all_return (handlers st' 15) 15 st') = Some (SystemExit (128 + 15))
      \<and> new_calls linux all_return (handlers st' 15) 15 st' = [(7, NoArgs)]"
    by fastforce
  then show ?thesis
    using st'(1,2) i m r b by (auto simp del: call2.simps)
qed

section \<open>Chaining\<close>

lemma chain_handler_installs:
  assumes ord: "ord = ''before'' \<or> ord = ''after''"
      and sig: "1 \<le> n" "n < nsig P" "has_sig P (DInt n)"
      and nm: "has_name cb"
  shows "\<exists>st'. chain_handler P (DInt n) cb ord st = (None, st')
       \<and> handlers st' =
           (\<lambda>s. if s = n \<and> signal_rejects P s = None
                then ChainedHandler (next_id st) ord cb (handlers st n) else handlers st s)
       \<and> installs st' = installs st @ [(n, ChainedHandler (next_id st) ord cb (handlers st n))]
       \<and> next_id st' = next_id st + 1
       \<and> fin_handler st' = fin_handler st
       \<and> graceful_shutdown_callback st' = graceful_shutdown_callback st
       \<and> blocked st' = blocked st \<and> alarm st' = alarm st \<and> invoked st' = invoked st"
proof -
  from sig(3) obtain nm where nm': "Signals_name P n = Inr nm"
    using Signals_name_known by blast
  let ?h = "ChainedHandler (next_id st) ord cb (handlers st n)"
  let ?st1 = "(emit (ChainingCallback nm ord) st)\<lparr>next_id := next_id st + 1\<rparr>"
  have c: "chain_handler P (DInt n) cb ord st = set_handler P (Single (DInt n)) ?h ?st1"
    using ord sig(1,2) nm nm' by (auto simp: chain_handler_def get_signal_setting_def Let_def)
  have r: "resolve_reaction ?h ?st1 = (Inr ?h, ?st1)"
    by (simp add: resolve_reaction_def)
  have k: "\<forall>s\<in>set [n]. has_sig P (DInt s)" using sig(3) by simp
  have no: "normalize_signals (Single (DInt n)) = Inr [n]" by simp
  from set_handler_known [OF r no k] obtain st' where
    st': "set_handler P (Single (DInt n)) ?h ?st1 = (None, st')"
      "handlers st' = (\<lambda>s. if s \<in> set [n] \<and> signal_rejects P s = None then ?h else handlers ?st1 s)"
      "installs st' = installs ?st1 @ map (\<lambda>s. (s, ?h)) [n]"
      "blocked st' = blocked ?st1" "alarm st' = alarm ?st1" "invoked st' = invoked ?st1"
      "graceful_shutdown_callback st' = graceful_shutdown_callback ?st1"
      "fin_handler st' = fin_handler ?st1" "next_id st' = next_id ?st1"
    by blast
  show ?thesis
    unfolding c using st' by (intro exI [of _ st']) (simp add: emit_def cong: if_cong)
qed

lemma call2_chained_user:
  assumes "beh a (SignalArgs n) = None"
  shows "call2 P beh (ChainedHandler i ord (UserCallable a hn t) orig) n s =
           (if \<not> callable orig then (None, s\<lparr>invoked := invoked s @ [(a, SignalArgs n)]\<rparr>)
            else if ord = ''before''
              then call2 P beh orig n (s\<lparr>invoked := invoked s @ [(a, SignalArgs n)]\<rparr>)
            else (case call2 P beh orig n s of
                    (Some e, s1) \<Rightarrow> (Some e, s1)
                  | (None, s1) \<Rightarrow> (None, s1\<lparr>invoked := invoked s1 @ [(a, SignalArgs n)]\<rparr>)))"
  using assms by (auto split: prod.splits option.splits)

lemma linux_sigint:
  "1 \<le> (2::int)" "2 < nsig linux" "has_sig linux (DInt 2)" "signal_rejects linux 2 = None"
  by (simp_all add: linux_def linux_signals_def)

lemma example_chained_facts:
  "handlers example_chained 2 =
     ChainedHandler 0 ''before'' (UserCallable 1 True True) (UserCallable 0 True True)"
  "next_id example_chained = 1"
proof -
  have o: "''before'' = ''before'' \<or> ''before'' = ''after''" by simp
  have n: "has_name (UserCallable 1 True True)" by simp
  from chain_handler_installs [OF o linux_sigint(1-3) n, of example_sigint]
  obtain st' where
    st': "chain_handler linux (DInt 2) (UserCallable 1 True True) ''before'' example_sigint = (None, st')"
      "handlers st' =
           (\<lambda>s. if s = 2 \<and> signal_rejects linux s = None
                then ChainedHandler (next_id example_sigint) ''before'' (UserCallable 1 True True)
                       (handlers example_sigint 2)
                else handlers example_sigint s)"
      "next_id st' = next_id example_sigint + 1"
    by blast
  have e: "example_chained = st'" using st'(1) by (simp add: example_chained_def)
  show "handlers example_chained 2 =
     ChainedHandler 0 ''before'' (UserCallable 1 True True) (UserCallable 0 True True)"
    unfolding e st'(2) using linux_sigint(4) by (simp add: example_sigint_def fresh_def)
  show "next_id example_chained = 1"
    unfolding e st'(3) by (simp add: example_sigint_def fresh_def)
qed

text \<open>
  Claim C5. For a signal that exists, is in range and can be caught, an order of "before"
  or "after" and a callback that is a function which returns: \<^verbatim>\<open>chain_handler\<close>
  returns normally and installs a new composite that holds the callback and the handler
  that was installed at call time, leaving every other signal alone. Delivering the
  signal to the composite: if the captured original is not callable (default, ignore,
  None) only the callback is called; with "before" the callback is called first and the
  original then runs in the state that already records that call; with "after" the
  original runs first and the callback is called once it has returned. The original may
  itself be a composite, so chaining again nests and the earlier callbacks still run.
\<close>

theorem chain_handler_composes:
  assumes ord: "ord = ''before'' \<or> ord = ''after''"
      and sig: "1 \<le> n" "n < nsig P" "has_sig P (DInt n)" "signal_rejects P n = None"
      and cb: "cb = UserCallable a True t"
      and ret: "beh a (SignalArgs n) = None"
  shows "\<exists>st'. chain_handler P (DInt n) cb ord st = (None, st')
      \<and> handlers st' n = ChainedHandler (next_id st) ord cb (handlers st n)
      \<and> (\<forall>m. m \<noteq> n \<longrightarrow> handlers st' m = handlers st m)
      \<and> (\<forall>s. call2 P beh (handlers st' n) n s =
           (if \<not> callable (handlers st n)
              then (None, s\<lparr>invoked := invoked s @ [(a, SignalArgs n)]\<rparr>)
            else if ord = ''before''
              then call2 P beh (handlers st n) n (s\<lparr>invoked := invoked s @ [(a, SignalArgs n)]\<rparr>)
            else (case call2 P beh (handlers st n) n s of
                    (Some e, s1) \<Rightarrow> (Some e, s1)
                  | (None, s1) \<Rightarrow> (None, s1\<lparr>invoked := invoked s1 @ [(a, SignalArgs n)]\<rparr>))))"
proof -
  have nm: "has_name cb" using cb by simp
  from chain_handler_installs [OF ord sig(1-3) nm, of st] obtain st' where
    st': "chain_handler P (DInt n) cb ord st = (None, st')"
      "handlers st' =
           (\<lambda>s. if s = n \<and> signal_rejects P s = None
                then ChainedHandler (next_id st) ord cb (handlers st n) else handlers st s)"
    by blast
  have h: "handlers st' n = ChainedHandler (next_id st) ord cb (handlers st n)"
    using st'(2) sig(4) by simp
  have o: "\<forall>m. m \<noteq> n \<longrightarrow> handlers st' m = handlers st m"
    using st'(2) by simp
  show ?thesis
    using st'(1) h o ret
      call2_chained_user [of beh a n P "next_id st" ord True t "handlers st n"]
    unfolding cb by (intro exI [of _ st']) (simp del: call2.simps)
qed


theorem chain_handler_composes_witness:
  "(''after'' = ''before'' \<or> ''after'' = ''after'')
   \<and> 1 \<le> (2::int) \<and> 2 < nsig linux \<and> has_sig linux (DInt 2) \<and> signal_rejects linux 2 = None
   \<and> all_return 2 (SignalArgs 2) = None
   \<and> callable (handlers example_chained 2)
   \<and> fst (chain_handler linux (DInt 2) (UserCallable 2 True True) ''after'' example_chained) = None
   \<and> handlers (snd (chain_handler linux (DInt 2) (UserCallable 2 True True) ''after''
                      example_chained)) 2
       = ChainedHandler 1 ''after'' (UserCallable 2 True True)
           (ChainedHandler 0 ''before'' (UserCallable 1 True True) (UserCallable 0 True True))
   \<and> call2 linux all_return
        (handlers (snd (chain_handler linux (DInt 2) (UserCallable 2 True True) ''after''
                          example_chained)) 2) 2 fresh
       = (None, fresh\<lparr>invoked := [(1, SignalArgs 2), (0, SignalArgs 2), (2, SignalArgs 2)]\<rparr>)"
proof -
  have o: "''after'' = ''before'' \<or> ''after'' = ''after''" by simp
  have c: "UserCallable 2 True True = UserCallable 2 True True" by simp
  have b: "all_return 2 (SignalArgs 2) = None" by (simp add: all_return_def)
  from o linux_sigint c b
    chain_handler_composes [where ord = "''after''" and n = 2 and P = linux
      and cb = "UserCallable 2 True True" and a = 2 and t = True and beh = all_return
      and st = example_chained]
  obtain st' where
    st': "chain_handler linux (DInt 2) (UserCallable 2 True True) ''after'' example_chained = (None, st')"
      "handlers st' 2 = ChainedHandler (next_id example_chained) ''after'' (UserCallable 2 True True)
                          (handlers example_chained 2)"
      "\<forall>s. call2 linux all_return (handlers st' 2) 2 s =
           (if \<not> callable (handlers example_chained 2)
              then (None, s\<lparr>invoked := invoked s @ [(2, SignalArgs 2)]\<rparr>)
            else if ''after'' = ''before''
              then call2 linux all_return (handlers example_chained 2) 2
                     (s\<lparr>invoked := invoked s @ [(2, SignalArgs 2)]\<rparr>)
            else (case call2 linux all_return (handlers example_chained 2) 2 s of
                    (Some e, s1) \<Rightarrow> (Some e, s1)
                  | (None, s1) \<Rightarrow> (None, s1\<lparr>invoked := invoked s1 @ [(2, SignalArgs 2)]\<rparr>)))"
    by blast
  have k: "callable (handlers example_chained 2)"
    by (simp add: example_chained_facts)
  have h: "handlers st' 2
       = ChainedHandler 1 ''after'' (UserCallable 2 True True)
           (ChainedHandler 0 ''before'' (UserCallable 1 True True) (UserCallable 0 True True))"
    using st'(2) by (simp add: example_chained_facts)
  have d: "call2 linux all_return (handlers st' 2) 2 fresh
       = (None, fresh\<lparr>invoked := [(1, SignalArgs 2), (0, SignalArgs 2), (2, SignalArgs 2)]\<rparr>)"
    using st'(3) k by (simp add: example_chained_facts all_return_def fresh_def)
  show ?thesis
    using o linux_sigint b k st'(1) h d by (simp del: call2.simps)
qed

section \<open>Masking\<close>

lemma names_each_known:
  "\<forall>s\<in>set sl. has_sig P (DInt s) \<Longrightarrow> \<exists>ns. names_each P sl = Inr ns"
proof (induction sl)
  case Nil
  then show ?case by simp
next
  case (Cons s sl)
  then obtain n ns where "Signals_name P s = Inr n" "names_each P sl = Inr ns"
    using Signals_name_known [of P s] by auto
  then show ?case by simp
qed

lemma example_outer_blocked: "blocked example_outer = {2, 15}"
  by (simp add: example_outer_def block_signals_enter_def sigmask_block_def emit_def
        Signals_name_def linux_def linux_signals_def fresh_def)

text \<open>
  Claim C1, as amended. On a platform with \<^verbatim>\<open>pthread_sigmask\<close> and for signals that
  exist, entering \<^verbatim>\<open>block_signals\<close> adds the scope's list to the blocked set and leaves
  the dispositions alone; the scope ends as the protected block ends, and its exit
  removes exactly the signals of its own list from the blocked set as the block left it,
  whether or not an enclosing scope had blocked them. Signals outside the list stay as
  they were.
\<close>

theorem block_signals_unblocks_its_list:
  assumes m: "has_pthread_sigmask P"
      and n: "normalize_signals signals = Inr sl"
      and k: "\<forall>s\<in>set sl. has_sig P (DInt s)"
  shows "\<exists>st1. block_signals_enter P signals st = (Inr sl, st1)
       \<and> blocked st1 = blocked st \<union> (set sl - unblockable P)
       \<and> handlers st1 = handlers st
       \<and> block_signals P signals body st
           = (fst (body st1), block_signals_exit sl (snd (body st1)))
       \<and> blocked (block_signals_exit sl (snd (body st1))) = blocked (snd (body st1)) - set sl
       \<and> handlers (block_signals_exit sl (snd (body st1))) = handlers (snd (body st1))"
proof -
  from names_each_known [OF k] obtain ns where ns: "names_each P sl = Inr ns" by blast
  let ?st1 = "sigmask_block P sl (emit (BlockingSignals ns) st)"
  have e: "block_signals_enter P signals st = (Inr sl, ?st1)"
    using m n ns by (simp add: block_signals_enter_def)
  have "blocked ?st1 = blocked st \<union> (set sl - unblockable P)" "handlers ?st1 = handlers st"
    by (simp_all add: sigmask_block_def emit_def)
  moreover have "block_signals P signals body st
           = (fst (body ?st1), block_signals_exit sl (snd (body ?st1)))"
    using e by (simp add: block_signals_def split: prod.splits)
  moreover have "blocked (block_signals_exit sl (snd (body ?st1))) = blocked (snd (body ?st1)) - set sl"
    "handlers (block_signals_exit sl (snd (body ?st1))) = handlers (snd (body ?st1))"
    by (simp_all add: block_signals_exit_def sigmask_unblock_def emit_def)
  ultimately show ?thesis using e by blast
qed

theorem block_signals_unblocks_its_list_witness:
  "has_pthread_sigmask linux \<and> normalize_signals (Many [DInt 10, DInt 2]) = Inr [10, 2]
   \<and> has_sig linux (DInt 10) \<and> has_sig linux (DInt 2)
   \<and> blocked example_outer = {2, 15}
   \<and> fst (block_signals linux (Many [DInt 10, DInt 2]) skip example_outer) = None
   \<and> blocked (snd (block_signals linux (Many [DInt 10, DInt 2]) skip example_outer)) = {15}"
proof -
  have m: "has_pthread_sigmask linux" by (simp add: linux_def)
  have n: "normalize_signals (Many [DInt 10, DInt 2]) = Inr [10, 2]" by simp
  have k: "\<forall>s\<in>set [10, 2]. has_sig linux (DInt s)"
    by (simp add: linux_def linux_signals_def)
  from block_signals_unblocks_its_list [OF m n k, of example_outer skip]
  obtain st1 where st1: "blocked st1 = blocked example_outer \<union> (set [10, 2] - unblockable linux)"
      "block_signals linux (Many [DInt 10, DInt 2]) skip example_outer
           = (fst (skip st1), block_signals_exit [10, 2] (snd (skip st1)))"
      "blocked (block_signals_exit [10, 2] (snd (skip st1))) = blocked (snd (skip st1)) - set [10, 2]"
    by blast
  have "blocked (snd (block_signals linux (Many [DInt 10, DInt 2]) skip example_outer)) = {15}"
    using st1 by (auto simp: skip_def example_outer_blocked linux_def)
  moreover have "fst (block_signals linux (Many [DInt 10, DInt 2]) skip example_outer) = None"
    using st1(2) by (simp add: skip_def)
  ultimately show ?thesis
    using m n k example_outer_blocked by simp
qed

text \<open>
  The claim as stated fails: inside a scope that blocks SIGINT (2) and SIGTERM (15), a
  scope that blocks SIGUSR1 (10) and SIGINT ends with SIGINT unblocked; SIGTERM stays
  blocked.
\<close>

theorem nested_block_signals_unblocks_outer:
  "2 \<in> blocked example_outer \<and> 15 \<in> blocked example_outer
   \<and> fst (block_signals linux (Many [DInt 10, DInt 2]) skip example_outer) = None
   \<and> 2 \<notin> blocked (snd (block_signals linux (Many [DInt 10, DInt 2]) skip example_outer))
   \<and> 15 \<in> blocked (snd (block_signals linux (Many [DInt 10, DInt 2]) skip example_outer))"
  by (simp add: example_outer_blocked block_signals_def block_signals_enter_def
        block_signals_exit_def sigmask_block_def sigmask_unblock_def emit_def skip_def
        Signals_name_def linux_def linux_signals_def)

section \<open>Signal designators\<close>

lemma strip_keeps_head:
  assumes "\<not> is_space c"
  shows "\<exists>t. strip (c # xs) = c # t"
proof -
  have "dropWhile is_space (rev xs @ [c]) = dropWhile is_space (rev xs) @ [c]
        \<or> dropWhile is_space (rev xs @ [c]) = [c]"
    using assms by (simp add: dropWhile_append)
  then have "\<exists>ys. dropWhile is_space (rev xs @ [c]) = ys @ [c]"
    by (metis append_Nil)
  then obtain ys where "dropWhile is_space (rev xs @ [c]) = ys @ [c]" by blast
  then show ?thesis using assms by (simp add: strip_def)
qed

lemma py_int_of_name:
  "py_int_of_string (''SIG'' @ rest) = Inl (ValueError ''invalid literal for int() with base 10'')"
proof -
  have s: "\<not> is_space CHR ''S''" by (simp add: is_space_def)
  from strip_keeps_head [OF s, of "''IG'' @ rest"] obtain t where
    "strip (''SIG'' @ rest) = CHR ''S'' # t" by auto
  then show ?thesis
    by (simp add: py_int_of_string_def py_unsigned_def digit_val_def Let_def)
qed

lemma int_each_name:
  "int_each (xs @ DStr (''SIG'' @ rest) # ys)
     = Inl (ValueError ''invalid literal for int() with base 10'')"
proof (induction xs)
  case Nil
  then show ?case using py_int_of_name [of rest] by simp
next
  case (Cons d xs)
  show ?case
  proof (cases d)
    case (DStr s)
    then show ?thesis
      using Cons by (cases "py_int_of_string s") (auto simp: py_int_of_string_def Let_def split: option.splits)
  qed (use Cons in simp_all)
qed


text \<open>
  Claim C6, as amended. The operations take a member of the \<^verbatim>\<open>Signals\<close> enum or an
  integer (or a list of them), and a member behaves as its number. A symbolic name as a
  string (every name of the table starts with "SIG") is not accepted by the operations
  that normalize with \<^verbatim>\<open>int()\<close>: \<^verbatim>\<open>_normalize_signals\<close>, \<^verbatim>\<open>set_handler\<close>,
  \<^verbatim>\<open>get_signal_setting\<close>, \<^verbatim>\<open>chain_handler\<close>, \<^verbatim>\<open>temp_handler\<close> and \<^verbatim>\<open>block_signals\<close>
  raise with the state unchanged. Only \<^verbatim>\<open>has_sig\<close> accepts a name string (looked up
  among the names) as well as an integer.
\<close>

theorem name_strings_rejected_members_accepted:
  "normalize_signals (Single (DStr (''SIG'' @ rest)))
     = Inl (ValueError ''invalid literal for int() with base 10'')
   \<and> normalize_signals (Many (xs @ DStr (''SIG'' @ rest) # ys))
     = Inl (ValueError ''invalid literal for int() with base 10'')
   \<and> set_handler P (Single (DStr (''SIG'' @ rest))) reaction st
     = (Some (ValueError ''invalid literal for int() with base 10''), st)
   \<and> get_signal_setting P (DStr (''SIG'' @ rest)) st
     = Inl (ValueError ''invalid literal for int() with base 10'')
   \<and> (\<exists>m. chain_handler P (DStr (''SIG'' @ rest)) cb ord st = (Some (ValueError m), st))
   \<and> temp_handler P (Single (DStr (''SIG'' @ rest))) reaction body st
     = (Some (ValueError ''invalid literal for int() with base 10''), st)
   \<and> (\<exists>e. block_signals P (Single (DStr (''SIG'' @ rest))) body st = (Some e, st))
   \<and> normalize_signals (Single (DMember n v)) = normalize_signals (Single (DInt v))
   \<and> normalize_signals (Many (map (\<lambda>(n, v). DMember n v) nvs))
     = normalize_signals (Many (map (\<lambda>(n, v). DInt v) nvs))
   \<and> set_handler P (Single (DMember n v)) reaction st = set_handler P (Single (DInt v)) reaction st
   \<and> get_signal_setting P (DMember n v) st = get_signal_setting P (DInt v) st
   \<and> chain_handler P (DMember n v) cb ord st = chain_handler P (DInt v) cb ord st
   \<and> temp_handler P (Single (DMember n v)) reaction body st
     = temp_handler P (Single (DInt v)) reaction body st
   \<and> block_signals P (Single (DMember n v)) body st = block_signals P (Single (DInt v)) body st
   \<and> has_sig P (DStr s) = (s \<in> fst ` set (available_signals P))
   \<and> has_sig P (DMember n v) = has_sig P (DInt v)"
proof -
  let ?E = "ValueError ''invalid literal for int() with base 10''"
  have p: "py_int (DStr (''SIG'' @ rest)) = Inl ?E"
    using py_int_of_name [of rest] by simp
  have a: "normalize_signals (Single (DStr (''SIG'' @ rest))) = Inl ?E"
    using p by simp
  have b: "normalize_signals (Many (xs @ DStr (''SIG'' @ rest) # ys)) = Inl ?E"
    using int_each_name [of xs rest ys] by simp
  have c: "set_handler P (Single (DStr (''SIG'' @ rest))) reaction st = (Some ?E, st)"
    using a by (simp add: set_handler_def del: normalize_signals.simps)
  have d: "get_signal_setting P (DStr (''SIG'' @ rest)) st = Inl ?E"
    using p by (simp add: get_signal_setting_def del: py_int.simps)
  have e: "\<exists>m. chain_handler P (DStr (''SIG'' @ rest)) cb ord st = (Some (ValueError m), st)"
    using d by (simp add: chain_handler_def)
  have f: "temp_handler P (Single (DStr (''SIG'' @ rest))) reaction body st = (Some ?E, st)"
    using a by (simp add: temp_handler_def temp_handler_enter_def del: normalize_signals.simps)
  have g: "\<exists>e. block_signals P (Single (DStr (''SIG'' @ rest))) body st = (Some e, st)"
    using a by (simp add: block_signals_def block_signals_enter_def del: normalize_signals.simps)
  have h: "normalize_signals (Many (map (\<lambda>(n, v). DMember n v) nvs))
     = normalize_signals (Many (map (\<lambda>(n, v). DInt v) nvs))"
    by (induction nvs) (auto split: prod.splits)
  have i: "set_handler P (Single (DMember n v)) reaction st = set_handler P (Single (DInt v)) reaction st"
    "get_signal_setting P (DMember n v) st = get_signal_setting P (DInt v) st"
    "temp_handler P (Single (DMember n v)) reaction body st
     = temp_handler P (Single (DInt v)) reaction body st"
    "block_signals P (Single (DMember n v)) body st = block_signals P (Single (DInt v)) body st"
    by (simp_all add: set_handler_def get_signal_setting_def temp_handler_def
          temp_handler_enter_def block_signals_def block_signals_enter_def)
  have sm: "\<And>r s. set_handler P (Single (DMember n v)) r s = set_handler P (Single (DInt v)) r s"
    by (simp add: set_handler_def)
  have j: "chain_handler P (DMember n v) cb ord st = chain_handler P (DInt v) cb ord st"
    by (simp add: chain_handler_def get_signal_setting_def sm Let_def split: sum.splits)
  show ?thesis
    using a b c d e f g h i j by simp
qed

theorem name_strings_rejected_members_accepted_witness:
  "set_handler linux (Single (DStr ''SIGINT'')) (Reaction ign) fresh
     = (Some (ValueError ''invalid literal for int() with base 10''), fresh)
   \<and> set_handler linux (Single (DMember ''SIGINT'' 2)) (Reaction ign) fresh
     = set_handler linux (Single (DInt 2)) (Reaction ign) fresh
   \<and> has_sig linux (DStr ''SIGINT'')"
  using name_strings_rejected_members_accepted
          [of "''INT''" "[]" "[]" linux "Reaction ign" fresh PyNone "''before''" skip
              "''SIGINT''" 2 "[]" "''SIGINT''"]
  by (simp add: linux_def linux_signals_def)

text \<open>
  The claim as stated fails: the name "SIGINT" makes \<^verbatim>\<open>set_handler\<close> raise
  \<^verbatim>\<open>ValueError\<close>, while its number 2 is accepted.
\<close>

theorem name_string_differs_from_number:
  "fst (set_handler linux (Single (DStr ''SIGINT'')) (Reaction ign) fresh)
     = Some (ValueError ''invalid literal for int() with base 10'')
   \<and> fst (set_handler linux (Single (DInt 2)) (Reaction ign) fresh) = None
   \<and> map_of (available_signals linux) ''SIGINT'' = Some 2"
  by (simp add: set_handler_def resolve_reaction_def create_fin_handler_def Signals_name_def
        os_signal_def installable_def emit_def linux_def linux_signals_def fresh_def Let_def
        py_int_of_string_def strip_def is_space_def py_unsigned_def digit_val_def)

section \<open>Temporary handlers\<close>

lemma snapshot_in_range:
  assumes "\<forall>s\<in>set sl. 1 \<le> s \<and> s < nsig P"
  shows "\<exists>snap. snapshot P sl st = Inr snap \<and> distinct (map fst snap)
           \<and> fst ` set snap = set sl \<and> (\<forall>(s, h)\<in>set snap. h = handlers st s)"
  using assms
proof (induction sl)
  case Nil
  then show ?case by simp
next
  case (Cons s sl)
  then obtain d where d: "snapshot P sl st = Inr d" "distinct (map fst d)"
      "fst ` set d = set sl" "\<forall>(s, h)\<in>set d. h = handlers st s"
    by auto
  let ?snap = "(s, handlers st s) # filter (\<lambda>(k, v). k \<noteq> s) d"
  have "snapshot P (s # sl) st = Inr ?snap"
    using Cons.prems d(1) by (simp add: get_signal_setting_def)
  moreover have "distinct (map fst ?snap)"
    using d(2) by (auto simp: distinct_map_filter)
  moreover have "fst ` set ?snap = set (s # sl)"
    using d(3) by force
  moreover have "\<forall>(s, h)\<in>set ?snap. h = handlers st s"
    using d(4) by auto
  ultimately show ?case by blast
qed

lemma restore_loop_effect:
  assumes "\<forall>(s, h)\<in>set snap. h = PyNone \<or> installable h"
      and "distinct (map fst snap)"
  shows "\<exists>st'. restore_loop P snap st = (None, st')
       \<and> (\<forall>(s, h)\<in>set snap. h \<noteq> PyNone \<and> signal_rejects P s = None \<longrightarrow> handlers st' s = h)
       \<and> (\<forall>s. (\<forall>h. (s, h) \<in> set snap \<longrightarrow> h = PyNone \<or> signal_rejects P s \<noteq> None)
              \<longrightarrow> handlers st' s = handlers st s)
       \<and> installs st' = installs st @ filter (\<lambda>(s, h). h \<noteq> PyNone) snap
       \<and> blocked st' = blocked st \<and> alarm st' = alarm st \<and> invoked st' = invoked st
       \<and> logged st' = logged st \<and> next_id st' = next_id st
       \<and> fin_handler st' = fin_handler st
       \<and> graceful_shutdown_callback st' = graceful_shutdown_callback st"
  using assms
proof (induction snap arbitrary: st)
  case Nil
  then show ?case by simp
next
  case (Cons p snap)
  obtain s h where p: "p = (s, h)" by (cases p)
  have fresh_key: "\<forall>h'. (s, h') \<notin> set snap"
    using Cons.prems(2) p by (force simp: image_iff)
  have ih_pre: "\<forall>(s, h)\<in>set snap. h = PyNone \<or> installable h" "distinct (map fst snap)"
    using Cons.prems by auto
  show ?case
  proof (cases "h = PyNone")
    case True
    from Cons.IH [OF ih_pre, of st] obtain st' where
      st': "restore_loop P snap st = (None, st')"
        "\<forall>(s, h)\<in>set snap. h \<noteq> PyNone \<and> signal_rejects P s = None \<longrightarrow> handlers st' s = h"
        "\<forall>s. (\<forall>h. (s, h) \<in> set snap \<longrightarrow> h = PyNone \<or> signal_rejects P s \<noteq> None)
              \<longrightarrow> handlers st' s = handlers st s"
        "installs st' = installs st @ filter (\<lambda>(s, h). h \<noteq> PyNone) snap"
        "blocked st' = blocked st" "alarm st' = alarm st" "invoked st' = invoked st"
        "logged st' = logged st" "next_id st' = next_id st"
        "fin_handler st' = fin_handler st"
        "graceful_shutdown_callback st' = graceful_shutdown_callback st"
      by blast
    have "restore_loop P (p # snap) st = (None, st')"
      using p True st'(1) by simp
    moreover have "\<forall>(s, h)\<in>set (p # snap). h \<noteq> PyNone \<and> signal_rejects P s = None
                      \<longrightarrow> handlers st' s = h"
      using p True st'(2) by auto
    moreover have "\<forall>s. (\<forall>h. (s, h) \<in> set (p # snap) \<longrightarrow> h = PyNone \<or> signal_rejects P s \<noteq> None)
              \<longrightarrow> handlers st' s = handlers st s"
      using st'(3) by auto
    moreover have "installs st' = installs st @ filter (\<lambda>(s, h). h \<noteq> PyNone) (p # snap)"
      using p True st'(4) by simp
    ultimately show ?thesis using st'(5-11) by blast
  next
    case False
    then have inst: "installable h" using Cons.prems(1) p by auto
    from os_signal_cases [OF inst, of P s st]
    show ?thesis
    proof
      assume a: "signal_rejects P s = None \<and> os_signal P s h st =
            (None, st\<lparr>installs := installs st @ [(s, h)], handlers := (handlers st)(s := h)\<rparr>)"
      let ?s1 = "st\<lparr>installs := installs st @ [(s, h)], handlers := (handlers st)(s := h)\<rparr>"
      from Cons.IH [OF ih_pre, of ?s1] obtain st' where
        st': "restore_loop P snap ?s1 = (None, st')"
          "\<forall>(s, h)\<in>set snap. h \<noteq> PyNone \<and> signal_rejects P s = None \<longrightarrow> handlers st' s = h"
          "\<forall>s. (\<forall>h. (s, h) \<in> set snap \<longrightarrow> h = PyNone \<or> signal_rejects P s \<noteq> None)
                \<longrightarrow> handlers st' s = handlers ?s1 s"
          "installs st' = installs ?s1 @ filter (\<lambda>(s, h). h \<noteq> PyNone) snap"
          "blocked st' = blocked ?s1" "alarm st' = alarm ?s1" "invoked st' = invoked ?s1"
          "logged st' = logged ?s1" "next_id st' = next_id ?s1"
          "fin_handler st' = fin_handler ?s1"
          "graceful_shutdown_callback st' = graceful_shutdown_callback ?s1"
        by blast
      have "restore_loop P (p # snap) st = (None, st')"
        using p False a st'(1) by simp
      moreover have "handlers st' s = h"
        using st'(3) fresh_key by simp
      then have "\<forall>(s, h)\<in>set (p # snap). h \<noteq> PyNone \<and> signal_rejects P s = None
                      \<longrightarrow> handlers st' s = h"
        using p st'(2) by auto
      moreover have "\<forall>s. (\<forall>h. (s, h) \<in> set (p # snap) \<longrightarrow> h = PyNone \<or> signal_rejects P s \<noteq> None)
              \<longrightarrow> handlers st' s = handlers st s"
        using st'(3) p False a by auto
      moreover have "installs st' = installs st @ filter (\<lambda>(s, h). h \<noteq> PyNone) (p # snap)"
        using p False st'(4) by simp
      ultimately show ?thesis using st'(5-11) by simp
    next
      assume "\<exists>r. signal_rejects P s = Some r \<and>
          os_signal P s h st = (Some (reject_error r), st\<lparr>installs := installs st @ [(s, h)]\<rparr>)"
      then obtain r where a: "signal_rejects P s = Some r"
        "os_signal P s h st = (Some (reject_error r), st\<lparr>installs := installs st @ [(s, h)]\<rparr>)"
        by blast
      let ?s1 = "st\<lparr>installs := installs st @ [(s, h)]\<rparr>"
      from Cons.IH [OF ih_pre, of ?s1] obtain st' where
        st': "restore_loop P snap ?s1 = (None, st')"
          "\<forall>(s, h)\<in>set snap. h \<noteq> PyNone \<and> signal_rejects P s = None \<longrightarrow> handlers st' s = h"
          "\<forall>s. (\<forall>h. (s, h) \<in> set snap \<longrightarrow> h = PyNone \<or> signal_rejects P s \<noteq> None)
                \<longrightarrow> handlers st' s = handlers ?s1 s"
          "installs st' = installs ?s1 @ filter (\<lambda>(s, h). h \<noteq> PyNone) snap"
          "blocked st' = blocked ?s1" "alarm st' = alarm ?s1" "invoked st' = invoked ?s1"
          "logged st' = logged ?s1" "next_id st' = next_id ?s1"
          "fin_handler st' = fin_handler ?s1"
          "graceful_shutdown_callback st' = graceful_shutdown_callback ?s1"
        by blast
      have "restore_loop P (p # snap) st = (None, st')"
        using p False a st'(1) by simp
      moreover have "\<forall>(s, h)\<in>set (p # snap). h \<noteq> PyNone \<and> signal_rejects P s = None
                      \<longrightarrow> handlers st' s = h"
        using p st'(2) a(1) by auto
      moreover have "\<forall>s. (\<forall>h. (s, h) \<in> set (p # snap) \<longrightarrow> h = PyNone \<or> signal_rejects P s \<noteq> None)
              \<longrightarrow> handlers st' s = handlers st s"
        using st'(3) by auto
      moreover have "installs st' = installs st @ filter (\<lambda>(s, h). h \<noteq> PyNone) (p # snap)"
        using p False st'(4) by simp
      ultimately show ?thesis using st'(5-11) by simp
    qed
  qed
qed


lemma int_each_ints: "int_each (map DInt sl) = Inr sl"
  by (induction sl) simp_all

lemma temp_handler_exit_effect:
  assumes "\<forall>(s, h)\<in>set snap. h = PyNone \<or> installable h"
      and "distinct (map fst snap)"
  shows "fst (temp_handler_exit P snap s2) = None
       \<and> (\<forall>(s, h)\<in>set snap. h \<noteq> PyNone \<and> signal_rejects P s = None
             \<longrightarrow> handlers (snd (temp_handler_exit P snap s2)) s = h)
       \<and> (\<forall>s. (\<forall>h. (s, h) \<in> set snap \<longrightarrow> h = PyNone \<or> signal_rejects P s \<noteq> None)
              \<longrightarrow> handlers (snd (temp_handler_exit P snap s2)) s = handlers s2 s)
       \<and> installs (snd (temp_handler_exit P snap s2))
           = installs s2 @ filter (\<lambda>(s, h). h \<noteq> PyNone) snap"
proof -
  from restore_loop_effect [OF assms, of P "emit ExitingTempHandler s2"] obtain st' where
    st': "restore_loop P snap (emit ExitingTempHandler s2) = (None, st')"
      "\<forall>(s, h)\<in>set snap. h \<noteq> PyNone \<and> signal_rejects P s = None \<longrightarrow> handlers st' s = h"
      "\<forall>s. (\<forall>h. (s, h) \<in> set snap \<longrightarrow> h = PyNone \<or> signal_rejects P s \<noteq> None)
              \<longrightarrow> handlers st' s = handlers (emit ExitingTempHandler s2) s"
      "installs st' = installs (emit ExitingTempHandler s2) @ filter (\<lambda>(s, h). h \<noteq> PyNone) snap"
    by blast
  then show ?thesis
    by (simp add: temp_handler_exit_def emit_def)
qed

text \<open>
  Claim C2, as amended. For signals that exist and are in range, dispositions that
  \<^verbatim>\<open>signal.getsignal\<close> can report, and a reaction that is a \<^verbatim>\<open>SigReaction\<close> or a
  callable: the scope is entered with a snapshot that has every signal of the list once;
  the scope ends as the protected block ends, whether the block returns or raises, and no
  error of the restoration is raised. After the exit every signal of the list whose
  snapshot is not \<^verbatim>\<open>None\<close> and which the platform lets be set has its disposition of
  before the scope; the exit attempts \<^verbatim>\<open>signal.signal\<close> exactly once for each snapshot
  entry that is not \<^verbatim>\<open>None\<close> and for nothing else. A signal whose snapshot is \<^verbatim>\<open>None\<close>
  is skipped and keeps what the block left; a signal the platform refuses to set was not
  changed on entry and is not changed on exit.
\<close>

theorem temp_handler_restores:
  assumes n: "normalize_signals signals = Inr sl"
      and rng: "\<forall>s\<in>set sl. 1 \<le> s \<and> s < nsig P \<and> has_sig P (DInt s)"
      and disp: "\<forall>s\<in>set sl. handlers st s = PyNone \<or> installable (handlers st s)"
      and valid: "callable reaction \<or> (\<exists>r. reaction = Reaction r)"
  shows "\<exists>snap st1. temp_handler_enter P signals reaction st = (Inr snap, st1)
      \<and> distinct (map fst snap) \<and> fst ` set snap = set sl
      \<and> (\<forall>(s, h)\<in>set snap. h = handlers st s)
      \<and> (\<forall>s\<in>set sl. signal_rejects P s \<noteq> None \<longrightarrow> handlers st1 s = handlers st s)
      \<and> temp_handler P signals reaction body st
          = (fst (body st1), snd (temp_handler_exit P snap (snd (body st1))))
      \<and> (\<forall>s2. fst (temp_handler_exit P snap s2) = None
            \<and> (\<forall>s\<in>set sl. handlers st s \<noteq> PyNone \<and> signal_rejects P s = None \<longrightarrow>
                  handlers (snd (temp_handler_exit P snap s2)) s = handlers st s)
            \<and> (\<forall>s. s \<notin> set sl \<or> handlers st s = PyNone \<or> signal_rejects P s \<noteq> None \<longrightarrow>
                  handlers (snd (temp_handler_exit P snap s2)) s = handlers s2 s)
            \<and> installs (snd (temp_handler_exit P snap s2))
                = installs s2 @ filter (\<lambda>(s, h). h \<noteq> PyNone) snap)"
proof -
  from snapshot_in_range [of sl P st] rng obtain snap where
    snap: "snapshot P sl st = Inr snap" "distinct (map fst snap)" "fst ` set snap = set sl"
      "\<forall>(s, h)\<in>set snap. h = handlers st s"
    by auto
  from names_each_known [of sl P] rng obtain ns where ns: "names_each P sl = Inr ns"
    by auto
  let ?st0 = "emit (EnteringTempHandler ns) st"
  from resolve_reaction_cases [of reaction ?st0] valid obtain h str where
    r: "resolve_reaction reaction ?st0 = (Inr h, str)"
    by auto
  have no: "normalize_signals (Many (map DInt sl)) = Inr sl"
    by (simp add: int_each_ints)
  have k: "\<forall>s\<in>set sl. has_sig P (DInt s)" using rng by simp
  from set_handler_known [OF r no k] obtain st1 where
    st1: "set_handler P (Many (map DInt sl)) reaction ?st0 = (None, st1)"
      "handlers st1 = (\<lambda>s. if s \<in> set sl \<and> signal_rejects P s = None then h else handlers ?st0 s)"
    by blast
  have e: "temp_handler_enter P signals reaction st = (Inr snap, st1)"
    using n snap(1) ns st1(1) by (simp add: temp_handler_enter_def)
  have ok: "\<forall>(s, h)\<in>set snap. h = PyNone \<or> installable h"
    using snap(3,4) disp by (force simp: image_iff)
  note ex = temp_handler_exit_effect [OF ok snap(2), of P]
  have rej: "\<forall>s\<in>set sl. signal_rejects P s \<noteq> None \<longrightarrow> handlers st1 s = handlers st s"
    using st1(2) by (simp add: emit_def)
  have t: "temp_handler P signals reaction body st
          = (fst (body st1), snd (temp_handler_exit P snap (snd (body st1))))"
  proof -
    obtain r st2 where b: "body st1 = (r, st2)" by (cases "body st1")
    obtain st3 where x: "temp_handler_exit P snap st2 = (None, st3)"
      using ex [of st2] by (cases "temp_handler_exit P snap st2") simp
    show ?thesis using e b x by (simp add: temp_handler_def)
  qed
  have fin: "\<forall>s2. fst (temp_handler_exit P snap s2) = None
            \<and> (\<forall>s\<in>set sl. handlers st s \<noteq> PyNone \<and> signal_rejects P s = None \<longrightarrow>
                  handlers (snd (temp_handler_exit P snap s2)) s = handlers st s)
            \<and> (\<forall>s. s \<notin> set sl \<or> handlers st s = PyNone \<or> signal_rejects P s \<noteq> None \<longrightarrow>
                  handlers (snd (temp_handler_exit P snap s2)) s = handlers s2 s)
            \<and> installs (snd (temp_handler_exit P snap s2))
                = installs s2 @ filter (\<lambda>(s, h). h \<noteq> PyNone) snap"
  proof (intro allI conjI)
    fix s2
    show "fst (temp_handler_exit P snap s2) = None" using ex [of s2] by simp
    show "installs (snd (temp_handler_exit P snap s2))
                = installs s2 @ filter (\<lambda>(s, h). h \<noteq> PyNone) snap"
      using ex [of s2] by simp
    show "\<forall>s\<in>set sl. handlers st s \<noteq> PyNone \<and> signal_rejects P s = None \<longrightarrow>
                  handlers (snd (temp_handler_exit P snap s2)) s = handlers st s"
    proof (intro ballI impI)
      fix s assume s: "s \<in> set sl" "handlers st s \<noteq> PyNone \<and> signal_rejects P s = None"
      then obtain h' where "(s, h') \<in> set snap" using snap(3) by force
      moreover from this have "h' = handlers st s" using snap(4) by auto
      ultimately show "handlers (snd (temp_handler_exit P snap s2)) s = handlers st s"
        using ex [of s2] s(2) by auto
    qed
  next
    fix s2 s
    show "s \<notin> set sl \<or> handlers st s = PyNone \<or> signal_rejects P s \<noteq> None \<longrightarrow>
                  handlers (snd (temp_handler_exit P snap s2)) s = handlers s2 s"
    proof
      assume a: "s \<notin> set sl \<or> handlers st s = PyNone \<or> signal_rejects P s \<noteq> None"
      have "\<forall>h. (s, h) \<in> set snap \<longrightarrow> h = PyNone \<or> signal_rejects P s \<noteq> None"
      proof (intro allI impI)
        fix h' assume m: "(s, h') \<in> set snap"
        then have "s \<in> set sl" "h' = handlers st s" using snap(3,4) by force+
        then show "h' = PyNone \<or> signal_rejects P s \<noteq> None" using a by auto
      qed
      then show "handlers (snd (temp_handler_exit P snap s2)) s = handlers s2 s"
        using ex [of s2] by blast
    qed
  qed
  show ?thesis
    using e snap(2,3,4) rej t fin by blast
qed

theorem temp_handler_restores_witness:
  "normalize_signals (Many [DInt 2, DInt 15, DInt 2]) = Inr [2, 15, 2]
   \<and> has_sig linux (DInt 2) \<and> has_sig linux (DInt 15) \<and> 15 < nsig linux
   \<and> installable (handlers example_sigint 2) \<and> installable (handlers example_sigint 15)
   \<and> signal_rejects linux 2 = None \<and> signal_rejects linux 15 = None
   \<and> fst (temp_handler linux (Many [DInt 2, DInt 15, DInt 2]) (Reaction ign) failing example_sigint)
       = Some (UserError 1)
   \<and> handlers (snd (temp_handler linux (Many [DInt 2, DInt 15, DInt 2]) (Reaction ign) failing
                      example_sigint)) 2 = UserCallable 0 True True
   \<and> handlers (snd (temp_handler linux (Many [DInt 2, DInt 15, DInt 2]) (Reaction ign) failing
                      example_sigint)) 15 = SIG_DFL"
proof -
  have n: "normalize_signals (Many [DInt 2, DInt 15, DInt 2]) = Inr [2, 15, 2]" by simp
  have k: "has_sig linux (DInt 2)" "has_sig linux (DInt 15)" "15 < nsig linux"
    "signal_rejects linux 2 = None" "signal_rejects linux 15 = None"
    by (simp_all add: linux_def linux_signals_def)
  have hs: "handlers example_sigint 2 = UserCallable 0 True True"
    "handlers example_sigint 15 = SIG_DFL"
    by (simp_all add: example_sigint_def fresh_def)
  have i: "installable (handlers example_sigint 2)" "installable (handlers example_sigint 15)"
    by (simp_all add: hs installable_def)
  have rng: "\<forall>s\<in>set [2, 15, 2]. 1 \<le> s \<and> s < nsig linux \<and> has_sig linux (DInt s)"
    using k by (simp add: linux_def)
  have disp: "\<forall>s\<in>set [2, 15, 2]. handlers example_sigint s = PyNone
                \<or> installable (handlers example_sigint s)"
    using i by simp
  have valid: "callable (Reaction ign) \<or> (\<exists>r. Reaction ign = Reaction r)" by simp
  from temp_handler_restores [OF n rng disp valid, of failing]
  obtain snap st1 where
    t: "temp_handler linux (Many [DInt 2, DInt 15, DInt 2]) (Reaction ign) failing example_sigint
          = (fst (failing st1), snd (temp_handler_exit linux snap (snd (failing st1))))"
    and fin: "\<forall>s2. fst (temp_handler_exit linux snap s2) = None
            \<and> (\<forall>s\<in>set [2, 15, 2].
                  handlers example_sigint s \<noteq> PyNone \<and> signal_rejects linux s = None \<longrightarrow>
                  handlers (snd (temp_handler_exit linux snap s2)) s = handlers example_sigint s)
            \<and> (\<forall>s. s \<notin> set [2, 15, 2] \<or> handlers example_sigint s = PyNone
                       \<or> signal_rejects linux s \<noteq> None \<longrightarrow>
                  handlers (snd (temp_handler_exit linux snap s2)) s = handlers s2 s)
            \<and> installs (snd (temp_handler_exit linux snap s2))
                = installs s2 @ filter (\<lambda>(s, h). h \<noteq> PyNone) snap"
    by (elim exE conjE) (rule that; assumption)
  from fin have r: "\<And>s2 s. s \<in> set [2, 15, 2] \<Longrightarrow> handlers example_sigint s \<noteq> PyNone
       \<Longrightarrow> signal_rejects linux s = None
       \<Longrightarrow> handlers (snd (temp_handler_exit linux snap s2)) s = handlers example_sigint s"
    by blast
  have "fst (temp_handler linux (Many [DInt 2, DInt 15, DInt 2]) (Reaction ign) failing example_sigint)
       = Some (UserError 1)"
    using t by (simp add: failing_def)
  moreover have "handlers (snd (temp_handler linux (Many [DInt 2, DInt 15, DInt 2]) (Reaction ign)
                    failing example_sigint)) 2 = UserCallable 0 True True"
    unfolding t using r [of 2 "snd (failing st1)"] k(4) hs(1) by simp
  moreover have "handlers (snd (temp_handler linux (Many [DInt 2, DInt 15, DInt 2]) (Reaction ign)
                    failing example_sigint)) 15 = SIG_DFL"
    unfolding t using r [of 15 "snd (failing st1)"] k(5) hs(2) by simp
  ultimately show ?thesis
    using n k i by simp
qed

text \<open>
  The claim as stated fails: when the handler of signal 2 was not installed from Python,
  the scope ends with the temporary disposition still installed, and no restoration was
  attempted for it.
\<close>

theorem temp_handler_keeps_override_for_foreign_handler:
  "handlers example_foreign 2 = PyNone
   \<and> fst (temp_handler linux (Single (DInt 2)) (Reaction ign) skip example_foreign) = None
   \<and> handlers (snd (temp_handler linux (Single (DInt 2)) (Reaction ign) skip example_foreign)) 2
       = SIG_IGN
   \<and> installs (snd (temp_handler linux (Single (DInt 2)) (Reaction ign) skip example_foreign))
       = [(2, SIG_IGN)]"
  by (simp add: temp_handler_def temp_handler_enter_def temp_handler_exit_def
        get_signal_setting_def set_handler_def resolve_reaction_def create_fin_handler_def
        Signals_name_def os_signal_def installable_def emit_def skip_def
        example_foreign_def linux_def linux_signals_def fresh_def Let_def)

section \<open>Timeouts\<close>

lemma with_timeout_enter_effect:
  assumes alrm: "map_of (available_signals P) ''SIGALRM'' = Some alrm"
      and rng: "1 \<le> alrm" "alrm < nsig P"
      and acc: "signal_rejects P alrm = None"
      and secs: "0 \<le> seconds" "seconds < 2 ^ 31"
  shows "\<exists>st1. with_timeout_enter P seconds st = (Inr (alrm, handlers st alrm), st1)
       \<and> handlers st1 = (handlers st)(alrm := TimeoutHandler (next_id st) seconds)
       \<and> alarm st1 = nat seconds \<and> blocked st1 = blocked st
       \<and> installs st1 = installs st @ [(alrm, TimeoutHandler (next_id st) seconds)]"
proof -
  let ?th = "TimeoutHandler (next_id st) seconds"
  let ?s1 = "(emit (EnteringTimeout seconds) st)\<lparr>next_id := next_id st + 1\<rparr>"
  have i: "installable ?th" by (simp add: installable_def)
  have g: "get_signal_setting P (DMember ''SIGALRM'' alrm) ?s1 = Inr (handlers st alrm)"
    using rng by (simp add: get_signal_setting_def emit_def)
  from os_signal_cases [OF i, of P alrm ?s1] acc
  have o: "os_signal P alrm ?th ?s1 =
            (None, ?s1\<lparr>installs := installs ?s1 @ [(alrm, ?th)],
                        handlers := (handlers ?s1)(alrm := ?th)\<rparr>)"
    by auto
  have m: "seconds mod 2 ^ 32 = seconds"
    using secs by simp
  let ?s2 = "?s1\<lparr>installs := installs ?s1 @ [(alrm, ?th)], handlers := (handlers ?s1)(alrm := ?th)\<rparr>"
  have a: "os_alarm seconds ?s2 = (None, ?s2\<lparr>alarm := nat seconds\<rparr>)"
    using secs m by (simp add: os_alarm_def)
  have "with_timeout_enter P seconds st = (Inr (alrm, handlers st alrm), ?s2\<lparr>alarm := nat seconds\<rparr>)"
    using alrm g o a by (simp add: with_timeout_enter_def Let_def)
  then show ?thesis
    by (intro exI [of _ "?s2\<lparr>alarm := nat seconds\<rparr>"]) (simp add: emit_def)
qed

lemma with_timeout_exit_effect:
  assumes acc: "signal_rejects P alrm = None" and inst: "installable h"
  shows "\<exists>st'. with_timeout_exit P alrm h st = (None, st')
       \<and> handlers st' = (handlers st)(alrm := h) \<and> alarm st' = 0
       \<and> blocked st' = blocked st \<and> installs st' = installs st @ [(alrm, h)]"
proof -
  have a: "os_alarm 0 st = (None, st\<lparr>alarm := 0\<rparr>)"
    by (simp add: os_alarm_def)
  from os_signal_cases [OF inst, of P alrm "st\<lparr>alarm := 0\<rparr>"] acc
  have o: "os_signal P alrm h (st\<lparr>alarm := 0\<rparr>) =
            (None, st\<lparr>alarm := 0, installs := installs st @ [(alrm, h)],
                       handlers := (handlers st)(alrm := h)\<rparr>)"
    by auto
  show ?thesis
    using a o by (simp add: with_timeout_exit_def emit_def)
qed

lemma with_timeout_result:
  assumes alrm: "map_of (available_signals P) ''SIGALRM'' = Some alrm"
      and rng: "1 \<le> alrm" "alrm < nsig P"
      and acc: "signal_rejects P alrm = None"
      and orig: "installable (handlers st alrm)"
      and secs: "0 \<le> seconds" "seconds < 2 ^ 31"
  shows "\<exists>st'. with_timeout P beh seconds blk st =
           ((if 0 < seconds \<and> nat seconds < duration blk \<and> alrm \<notin> blocked st
               then Some SimSigTimeoutError else raises blk), st')
        \<and> handlers st' = handlers st \<and> alarm st' = 0 \<and> blocked st' = blocked st
        \<and> installs st' = installs st @ [(alrm, TimeoutHandler (next_id st) seconds),
                                         (alrm, handlers st alrm)]"
proof -
  let ?th = "TimeoutHandler (next_id st) seconds"
  from with_timeout_enter_effect [OF alrm rng acc secs, of st] obtain st1 where
    e: "with_timeout_enter P seconds st = (Inr (alrm, handlers st alrm), st1)"
       "handlers st1 = (handlers st)(alrm := ?th)"
       "alarm st1 = nat seconds" "blocked st1 = blocked st"
       "installs st1 = installs st @ [(alrm, ?th)]"
    by blast
  let ?fire = "0 < seconds \<and> nat seconds < duration blk \<and> alrm \<notin> blocked st"
  define r where "r = (if ?fire then Some SimSigTimeoutError else raises blk)"
  have "\<exists>st2. run_timed P beh alrm blk st1 = (r, st2) \<and> handlers st2 = handlers st1
            \<and> blocked st2 = blocked st1 \<and> installs st2 = installs st1"
  proof (cases ?fire)
    case True
    then have c: "0 < alarm st1 \<and> alarm st1 < duration blk \<and> alrm \<notin> blocked st1"
      using e(3,4) by simp
    have h: "handlers st1 alrm = ?th" using e(2) by simp
    have "run_timed P beh alrm blk st1 = (Some SimSigTimeoutError, st1\<lparr>alarm := 0\<rparr>)"
      unfolding run_timed_def using c h by simp
    then show ?thesis using True by (simp add: r_def)
  next
    case False
    then have c: "\<not> (0 < alarm st1 \<and> alarm st1 < duration blk \<and> alrm \<notin> blocked st1)"
      using e(3,4) secs(1) by auto
    have "run_timed P beh alrm blk st1 = (raises blk, st1\<lparr>alarm := alarm st1 - duration blk\<rparr>)"
      by (simp only: run_timed_def c if_False)
    moreover have "r = raises blk" unfolding r_def using False by (simp only: if_False)
    ultimately show ?thesis by simp
  qed
  then obtain st2 where b: "run_timed P beh alrm blk st1 = (r, st2)"
    and f: "handlers st2 = handlers st1" "blocked st2 = blocked st1" "installs st2 = installs st1"
    by blast
  from with_timeout_exit_effect [OF acc orig, of st2] obtain st' where
    x: "with_timeout_exit P alrm (handlers st alrm) st2 = (None, st')"
       "handlers st' = (handlers st2)(alrm := handlers st alrm)" "alarm st' = 0"
       "blocked st' = blocked st2" "installs st' = installs st2 @ [(alrm, handlers st alrm)]"
    by blast
  have "with_timeout P beh seconds blk st = (r, st')"
    using e(1) b x(1) by (simp add: with_timeout_def)
  moreover have "handlers st' = handlers st"
    using x(2) f(1) e(2) by (simp add: fun_eq_iff)
  moreover have "installs st' = installs st @ [(alrm, ?th), (alrm, handlers st alrm)]"
    using x(5) f(3) e(5) by simp
  moreover have "blocked st' = blocked st"
    using x(4) f(2) e(4) by simp
  ultimately show ?thesis
    using x(3) unfolding r_def by blast
qed




lemma linux_sigalrm:
  "map_of (available_signals linux) ''SIGALRM'' = Some 14" "1 \<le> (14::int)" "14 < nsig linux"
  "signal_rejects linux 14 = None" "installable (handlers fresh 14)"
  by (simp_all add: linux_def linux_signals_def fresh_def installable_def)

text \<open>
  Claim C4, as amended. On a platform that has SIGALRM and lets its handler be set, for
  \<open>0 \<le> n < 2^31\<close> and a disposition of SIGALRM before the scope that \<^verbatim>\<open>signal.signal\<close>
  can install again (default, ignore or a callable; a disposition that reads as \<^verbatim>\<open>None\<close>
  is left out): the scope raises \<^verbatim>\<open>SimSigTimeoutError\<close> exactly when \<open>n > 0\<close>, the
  block needs more than \<open>n\<close> seconds and SIGALRM is not blocked. Otherwise (the block ends
  within \<open>n\<close>, or \<open>n = 0\<close> arms no countdown, or SIGALRM is blocked and so not delivered
  inside the scope) the scope ends as the block ends, by returning or with the block's own
  exception. On every one of these exits the countdown is disarmed and the disposition
  table is the one of before the scope: exactly two \<^verbatim>\<open>signal.signal\<close> calls were made,
  the installation of the timeout handler and the restoration of the original.
\<close>

theorem with_timeout_cleans_up:
  assumes alrm: "map_of (available_signals P) ''SIGALRM'' = Some alrm"
      and rng: "1 \<le> alrm" "alrm < nsig P"
      and acc: "signal_rejects P alrm = None"
      and orig: "installable (handlers st alrm)"
      and secs: "0 \<le> seconds" "seconds < 2 ^ 31"
  shows "\<exists>st'. with_timeout P beh seconds blk st =
           ((if 0 < seconds \<and> nat seconds < duration blk \<and> alrm \<notin> blocked st
               then Some SimSigTimeoutError else raises blk), st')
        \<and> handlers st' = handlers st \<and> alarm st' = 0 \<and> blocked st' = blocked st
        \<and> installs st' = installs st @ [(alrm, TimeoutHandler (next_id st) seconds),
                                         (alrm, handlers st alrm)]"
  by (rule with_timeout_result [OF assms])

theorem with_timeout_cleans_up_witness:
  "map_of (available_signals linux) ''SIGALRM'' = Some 14 \<and> 14 < nsig linux
   \<and> signal_rejects linux 14 = None \<and> installable (handlers fresh 14) \<and> 14 \<notin> blocked fresh
   \<and> fst (with_timeout linux all_return 2 \<lparr>duration = 5, raises = None\<rparr> fresh)
       = Some SimSigTimeoutError
   \<and> handlers (snd (with_timeout linux all_return 2 \<lparr>duration = 5, raises = None\<rparr> fresh)) 14
       = SIG_DFL
   \<and> alarm (snd (with_timeout linux all_return 2 \<lparr>duration = 5, raises = None\<rparr> fresh)) = 0
   \<and> fst (with_timeout linux all_return 10 \<lparr>duration = 5, raises = Some (UserError 1)\<rparr> fresh)
       = Some (UserError 1)
   \<and> handlers (snd (with_timeout linux all_return 10
                      \<lparr>duration = 5, raises = Some (UserError 1)\<rparr> fresh)) 14 = SIG_DFL
   \<and> alarm (snd (with_timeout linux all_return 10
                   \<lparr>duration = 5, raises = Some (UserError 1)\<rparr> fresh)) = 0"
proof -
  have b: "14 \<notin> blocked fresh" "handlers fresh 14 = SIG_DFL" by (simp_all add: fresh_def)
  have s2: "0 \<le> (2::int)" "(2::int) < 2 ^ 31" and s10: "0 \<le> (10::int)" "(10::int) < 2 ^ 31"
    by simp_all
  from with_timeout_cleans_up [OF linux_sigalrm s2, of all_return "\<lparr>duration = 5, raises = None\<rparr>"]
  obtain sa where
    a: "with_timeout linux all_return 2 \<lparr>duration = 5, raises = None\<rparr> fresh =
           ((if 0 < (2::int) \<and> nat 2 < duration \<lparr>duration = 5, raises = None\<rparr> \<and> 14 \<notin> blocked fresh
               then Some SimSigTimeoutError else raises \<lparr>duration = 5, raises = None\<rparr>), sa)"
       "handlers sa = handlers fresh" "alarm sa = 0"
    by (elim exE conjE) (rule that; assumption)
  from with_timeout_cleans_up [OF linux_sigalrm s10, of all_return
         "\<lparr>duration = 5, raises = Some (UserError 1)\<rparr>"]
  obtain sb where
    c: "with_timeout linux all_return 10 \<lparr>duration = 5, raises = Some (UserError 1)\<rparr> fresh =
           ((if 0 < (10::int) \<and> nat 10 < duration \<lparr>duration = 5, raises = Some (UserError 1)\<rparr>
                 \<and> 14 \<notin> blocked fresh
               then Some SimSigTimeoutError
               else raises \<lparr>duration = 5, raises = Some (UserError 1)\<rparr>), sb)"
       "handlers sb = handlers fresh" "alarm sb = 0"
    by (elim exE conjE) (rule that; assumption)
  show ?thesis
    unfolding a(1) c(1) using linux_sigalrm b a(2,3) c(2,3) by simp
qed

text \<open>
  The claim as stated fails when SIGALRM is blocked: inside \<^verbatim>\<open>block_signals(SIGALRM)\<close>
  a block that runs for five seconds under \<^verbatim>\<open>with_timeout(2)\<close> ends normally, because
  the expired alarm is not delivered while the signal is blocked.
\<close>

theorem with_timeout_blocked_alarm_never_fires:
  "14 \<in> blocked example_alarm_blocked
   \<and> nat 2 < duration \<lparr>duration = 5, raises = None\<rparr>
   \<and> fst (with_timeout linux all_return 2 \<lparr>duration = 5, raises = None\<rparr> example_alarm_blocked)
       = None"
proof -
  have s2: "0 \<le> (2::int)" "(2::int) < 2 ^ 31" by simp_all
  have b: "blocked example_alarm_blocked = {14}" "handlers example_alarm_blocked = handlers fresh"
    by (simp_all add: example_alarm_blocked_def block_signals_enter_def sigmask_block_def
          emit_def Signals_name_def linux_def linux_signals_def fresh_def)
  have i: "installable (handlers example_alarm_blocked 14)"
    using linux_sigalrm(5) b(2) by simp
  from with_timeout_result [OF linux_sigalrm(1-4) i s2, of all_return
         "\<lparr>duration = 5, raises = None\<rparr>"]
  have "fst (with_timeout linux all_return 2 \<lparr>duration = 5, raises = None\<rparr> example_alarm_blocked)
       = None"
    using b(1) by auto
  then show ?thesis using b(1) by simp
qed

end
